theory Spec2Isabelle
  imports Main "HOL-Library.Word"
begin

unbundle bit_operations_syntax

section \<open>The WebSocket frame codec of webrtc\_server.c\<close>

text \<open>
  Bytes are \<open>uint8_t\<close>, sizes are \<open>size_t\<close> and \<open>uint64_t\<close>, both 64 bits wide
  (an LP64 platform), so sums of sizes wrap around at \<open>2 ^ 64\<close> as they do in C.
  A buffer \<open>(data, len)\<close> is a list of bytes, \<open>len\<close> being its length.
\<close>

type_synonym byte = "8 word"
type_synonym size_t = "64 word"

text \<open>
  What a call of one of the two codec functions does: it returns \<open>false\<close>, or it
  returns \<open>true\<close> with its out-parameters set, or it reads or writes memory outside
  the buffers it was given (undefined behaviour in C, \<open>Fault\<close> here).
\<close>

datatype 'a outcome = Return_False | Fault | Return_True 'a

text \<open>
  \<open>payload_length = (data[2] << 8) | data[3]\<close>: the two bytes are promoted to
  \<open>int\<close> (32 bits), combined there, and the \<open>int\<close> is converted to \<open>uint64_t\<close>.
\<close>

definition ext16 :: "byte list \<Rightarrow> size_t" where
  "ext16 data =
     scast ((push_bit 8 (ucast (data ! 2) :: 32 word)) OR (ucast (data ! 3) :: 32 word))"

text \<open>
  \<open>payload_length = 0; for (i = 0; i < 8; i++) payload_length = (payload_length << 8) | data[2 + i]\<close>
\<close>

definition ext64 :: "byte list \<Rightarrow> size_t" where
  "ext64 data = fold (\<lambda>i payload_length. push_bit 8 payload_length OR ucast (data ! (2 + i))) [0..<8] 0"

text \<open>
  \<open>for (size_t i = 0; i < payload_length; i++) (*payload)[i] ^= mask[i % 4]\<close>,
  the array \<open>mask\<close> being \<open>mask_key\<close> here.
\<close>

definition unmask :: "byte list \<Rightarrow> nat \<Rightarrow> byte list \<Rightarrow> byte list" where
  "unmask mask_key payload_length payload =
     fold (\<lambda>i p. p[i := p ! i XOR mask_key ! (i mod 4)]) [0..<payload_length] payload"

text \<open>
  \<open>parse_websocket_frame(data, len, &payload, &payload_len)\<close>, in two parts. The
  allocator is a parameter: \<open>malloc_ok n\<close> says whether \<open>malloc(n)\<close> returns a block.

  \<open>copy_payload\<close> is the second half of the function body, from
  \<open>if (masked) header_len += 4\<close> to \<open>return true\<close>. The test
  \<open>len < header_len + payload_length\<close> is made on 64-bit unsigned values, so the sum
  on its right is the wrapped one. \<open>memcpy\<close> then reads \<open>payload_length\<close> bytes
  from offset \<open>header_len\<close>, and the block it writes to has \<open>payload_length + 1\<close>
  bytes, again wrapped: \<open>Fault\<close> is where one of the two does not fit. On
  \<open>Return_True (payload, payload_len)\<close> the first component is the whole allocated
  block, \<open>payload_length + 1\<close> bytes, the last one the terminating NUL.
\<close>

definition copy_payload ::
  "(size_t \<Rightarrow> bool) \<Rightarrow> byte list \<Rightarrow> bool \<Rightarrow> size_t \<Rightarrow> size_t \<Rightarrow> (byte list \<times> size_t) outcome" where
  "copy_payload malloc_ok data masked payload_length header_len0 =
     (let len = length data;
          header_len = (if masked then header_len0 + 4 else header_len0)
      in
        if len < unat (header_len + payload_length) then Return_False
        else if \<not> malloc_ok (payload_length + 1) then Return_False
        else if len < unat header_len + unat payload_length \<or> payload_length + 1 = 0
          then Fault
        else
          let payload = take (unat payload_length) (drop (unat header_len) data) @ [0];
              mask_key = take 4 (drop (unat header_len - 4) data)
          in Return_True
               (if masked then unmask mask_key (unat payload_length) payload else payload,
                payload_length))"

text \<open>
  The first half reads the base header and the extended length. The opcode
  \<open>data[0] & 0x0F\<close> is computed by the source and never used.
\<close>

definition parse_websocket_frame :: "(size_t \<Rightarrow> bool) \<Rightarrow> byte list \<Rightarrow> (byte list \<times> size_t) outcome" where
  "parse_websocket_frame malloc_ok data =
     (let len = length data in
      if len < 2 then Return_False
      else
        let masked = (data ! 1 AND 0x80 \<noteq> 0);
            payload_length = (ucast (data ! 1 AND 0x7F) :: size_t)
        in
          if payload_length = 126 then
            (if len < 4 then Return_False
             else copy_payload malloc_ok data masked (ext16 data) 4)
          else if payload_length = 127 then
            (if len < 10 then Return_False
             else copy_payload malloc_ok data masked (ext64 data) 10)
          else copy_payload malloc_ok data masked payload_length 2)"

text \<open>
  \<open>create_websocket_frame(payload, payload_len, &frame, &frame_len)\<close>, with
  \<open>payload_len\<close> the length of the payload buffer. \<open>frame_len = header_len + payload_len\<close>
  is a \<open>size_t\<close> sum; the frame block has \<open>frame_len\<close> bytes and \<open>memcpy\<close> writes
  \<open>payload_len\<close> bytes at offset \<open>header_len\<close>.
\<close>

definition create_header_len :: "size_t \<Rightarrow> size_t" where
  "create_header_len payload_len =
     (if payload_len > 65535 then 10 else if payload_len > 125 then 4 else 2)"

definition create_header :: "size_t \<Rightarrow> byte list" where
  "create_header payload_len =
     0x81 #
     (if payload_len > 65535 then
        127 # map (\<lambda>i. ucast (drop_bit (8 * (7 - i)) payload_len AND 0xFF)) [0..<8]
      else if payload_len > 125 then
        [126, ucast (drop_bit 8 payload_len AND 0xFF), ucast (payload_len AND 0xFF)]
      else
        [ucast (payload_len AND 0x7F)])"

definition create_websocket_frame :: "(size_t \<Rightarrow> bool) \<Rightarrow> byte list \<Rightarrow> (byte list \<times> size_t) outcome" where
  "create_websocket_frame malloc_ok payload =
     (let payload_len = (of_nat (length payload) :: size_t);
          header_len = create_header_len payload_len;
          frame_len = header_len + payload_len
      in
        if \<not> malloc_ok frame_len then Return_False
        else if unat header_len + length payload \<noteq> unat frame_len then Fault
        else Return_True (create_header payload_len @ payload, frame_len))"

subsection \<open>The wire format as the specification words it\<close>

text \<open>
  The specification describes the frame header by its fields, most significant byte
  first. These definitions follow its words, in arithmetic on natural numbers, and the
  source's bit operations are compared with them below.
\<close>

definition be_nat :: "byte list \<Rightarrow> nat" where
  "be_nat bs = foldl (\<lambda>a b. a * 256 + unat b) 0 bs"

text \<open>
  The header a buffer declares: the 2-byte base header; a 7-bit length of 126 is
  followed by a 16-bit length, one of 127 by a 64-bit length; a set mask bit adds a
  4-byte key. The result is the header length and the declared payload length, or
  \<open>None\<close> when the buffer ends before the length field does.
\<close>

definition declared_frame :: "byte list \<Rightarrow> (nat \<times> nat) option" where
  "declared_frame data =
     (if length data < 2 then None
      else
        let len7 = unat (data ! 1) mod 128;
            key_len = (if 128 \<le> unat (data ! 1) then 4 else 0 :: nat)
        in
          if len7 = 126 then
            (if length data < 4 then None
             else Some (4 + key_len, be_nat (take 2 (drop 2 data))))
          else if len7 = 127 then
            (if length data < 10 then None
             else Some (10 + key_len, be_nat (take 8 (drop 2 data))))
          else Some (2 + key_len, len7))"

text \<open>
  The header of an unmasked single-frame text message of \<open>n\<close> payload bytes: FIN and
  opcode 1, then the length in one byte, or the marker 126 and two bytes, or the marker
  127 and eight bytes.
\<close>

definition text_frame_header :: "nat \<Rightarrow> byte list" where
  "text_frame_header n =
     (if n \<le> 125 then [0x81, of_nat n]
      else if n \<le> 65535 then [0x81, 126, of_nat (n div 256), of_nat (n mod 256)]
      else [0x81, 127] @ map (\<lambda>i. of_nat (n div 256 ^ (7 - i) mod 256)) [0..<8])"

section \<open>The signaling server of webrtc\_server.c\<close>

subsection \<open>Sockets, the outside world, the lock\<close>

text \<open>
  A socket handle is \<open>SC_SOCKET_NONE\<close> or a descriptor. What the server does to the
  outside world is recorded as the list of events a call emits, in order: bytes handed
  to \<open>net_send_all\<close>, sockets given to \<open>net_close\<close>, a peer connection given to
  \<open>rtcDeletePeerConnection\<close>, and the two callbacks with the client id they receive.
  A callback is foreign code; it is taken not to change the server it is handed.
  Log output is left out.
\<close>

datatype sc_socket = SC_SOCKET_NONE | Socket nat

datatype event =
    Net_Send sc_socket string
  | Net_Close sc_socket
  | Rtc_Delete_Peer_Connection nat
  | On_Client_Connected int
  | On_Client_Disconnected int

text \<open>
  Modelled from the spec: \<open>sc_mutex\<close>, \<open>sc_mutex_lock\<close> and \<open>sc_mutex_unlock\<close> are
  declared in \<open>util/thread.h\<close>, which is not among the sources. The specification
  speaks of a mutex, a single lock, and forbids calling back into the registry while
  holding it; it does not say that a thread holding the lock may take it again. The
  field \<open>recursive\<close> leaves that open. Only the calling thread is modelled: \<open>depth\<close>
  is the number of times it holds the lock, and \<open>None\<close> is a call of
  \<open>sc_mutex_lock\<close> that never returns, the thread waiting for itself.
\<close>

record sc_mutex =
  recursive :: bool
  depth :: nat

definition sc_mutex_lock :: "sc_mutex \<Rightarrow> sc_mutex option" where
  "sc_mutex_lock m =
     (if depth m = 0 \<or> recursive m then Some (m\<lparr>depth := depth m + 1\<rparr>) else None)"

definition sc_mutex_unlock :: "sc_mutex \<Rightarrow> sc_mutex" where
  "sc_mutex_unlock m = m\<lparr>depth := depth m - 1\<rparr>"

subsection \<open>Clients and the server\<close>

text \<open>
  \<open>struct sc_webrtc_client\<close> and \<open>struct sc_webrtc_server\<close>. The two \<open>void *\<close>
  handles are \<open>None\<close> for \<open>NULL\<close>; the back pointer \<open>server\<close> of a client is left
  out, there being one server. Of the server the thread, the port and the frame sink
  take no part in what follows and are left out; a callback pointer is represented by
  whether it is set.
\<close>

record sc_webrtc_client =
  id_c :: int
  peer_connection :: "nat option"
  data_channel :: "nat option"
  connected :: bool
  socket :: sc_socket

record sc_webrtc_server =
  server_socket :: sc_socket
  stopped :: bool
  mutex :: sc_mutex
  clients :: "sc_webrtc_client list"
  client_count :: int
  on_client_connected :: bool
  on_client_disconnected :: bool

definition SC_WEBRTC_MAX_CLIENTS :: int where
  "SC_WEBRTC_MAX_CLIENTS = 10"

text \<open>
  \<open>sc_webrtc_server_add_client\<close>: the new id, or \<open>-1\<close> when the table is full.
\<close>

definition sc_webrtc_server_add_client ::
  "sc_webrtc_server \<Rightarrow> sc_socket \<Rightarrow> (sc_webrtc_server \<times> int) option" where
  "sc_webrtc_server_add_client server client_socket =
     (case sc_mutex_lock (mutex server) of
        None \<Rightarrow> None
      | Some m \<Rightarrow>
          let server = server\<lparr>mutex := m\<rparr> in
          if client_count server \<ge> SC_WEBRTC_MAX_CLIENTS then
            Some (server\<lparr>mutex := sc_mutex_unlock (mutex server)\<rparr>, - 1)
          else
            let client_id = client_count server;
                client = (clients server ! nat client_id)
                  \<lparr>id_c := client_id,
                   socket := client_socket,
                   connected := True,
                   peer_connection := None,
                   data_channel := None\<rparr>;
                server = server
                  \<lparr>clients := (clients server)[nat client_id := client],
                   client_count := client_count server + 1\<rparr>
            in Some (server\<lparr>mutex := sc_mutex_unlock (mutex server)\<rparr>, client_id))"

text \<open>
  A caller that registers the sockets of a list one after the other and collects the
  ids returned, as the registry test of the specification does.
\<close>

fun add_client_sequence ::
  "sc_webrtc_server \<Rightarrow> sc_socket list \<Rightarrow> (sc_webrtc_server \<times> int list) option" where
  "add_client_sequence server [] = Some (server, [])"
| "add_client_sequence server (client_socket # rest) =
     (case sc_webrtc_server_add_client server client_socket of
        None \<Rightarrow> None
      | Some (server', client_id) \<Rightarrow>
          (case add_client_sequence server' rest of
             None \<Rightarrow> None
           | Some (server'', ids) \<Rightarrow> Some (server'', client_id # ids)))"

text \<open>
  \<open>sc_webrtc_server_remove_client\<close>: the server afterwards and the events emitted.
\<close>

definition sc_webrtc_server_remove_client ::
  "sc_webrtc_server \<Rightarrow> int \<Rightarrow> (sc_webrtc_server \<times> event list) option" where
  "sc_webrtc_server_remove_client server client_id =
     (case sc_mutex_lock (mutex server) of
        None \<Rightarrow> None
      | Some m \<Rightarrow>
          let server = server\<lparr>mutex := m\<rparr>;
              (server, evs) =
                (if client_id \<ge> 0 \<and> client_id < client_count server then
                   let client = clients server ! nat client_id in
                   if connected client then
                     let client = client\<lparr>connected := False\<rparr>;
                         evs = [Net_Close (socket client)];
                         (client, evs) =
                           (case peer_connection client of
                              Some pc \<Rightarrow>
                                (client\<lparr>peer_connection := None\<rparr>,
                                 evs @ [Rtc_Delete_Peer_Connection pc])
                            | None \<Rightarrow> (client, evs));
                         evs =
                           (if on_client_disconnected server
                            then evs @ [On_Client_Disconnected client_id] else evs)
                     in (server\<lparr>clients := (clients server)[nat client_id := client]\<rparr>, evs)
                   else (server, [])
                 else (server, []))
          in Some (server\<lparr>mutex := sc_mutex_unlock (mutex server)\<rparr>, evs))"

text \<open>
  \<open>sc_webrtc_server_get_client\<close>: the slot, or \<open>None\<close> for \<open>NULL\<close>.
\<close>

definition sc_webrtc_server_get_client :: "sc_webrtc_server \<Rightarrow> int \<Rightarrow> sc_webrtc_client option" where
  "sc_webrtc_server_get_client server client_id =
     (if client_id \<ge> 0 \<and> client_id < client_count server
      then Some (clients server ! nat client_id) else None)"

subsection \<open>The upgrade negotiator\<close>

definition CRLF :: string where
  "CRLF = [CHR 0x0D, CHR 0x0A]"

text \<open>
  The handshake response \<open>sc_webrtc_server_handle_websocket\<close> sends, a string literal
  of the source.
\<close>

definition websocket_response :: string where
  "websocket_response =
     ''HTTP/1.1 101 Switching Protocols'' @ CRLF @
     ''Upgrade: websocket'' @ CRLF @
     ''Connection: Upgrade'' @ CRLF @
     ''Sec-WebSocket-Accept: s3pPLMBiTxaQ9kYGzzhZRbK+xOo='' @ CRLF @
     CRLF"

text \<open>
  \<open>sc_webrtc_server_handle_websocket\<close>. The value \<open>sent\<close> is what \<open>net_send_all\<close>
  returns. The result is the returned \<open>bool\<close>, the server and the events.
\<close>

definition sc_webrtc_server_handle_websocket ::
  "sc_webrtc_server \<Rightarrow> sc_socket \<Rightarrow> int \<Rightarrow> (bool \<times> sc_webrtc_server \<times> event list) option" where
  "sc_webrtc_server_handle_websocket server client_socket sent =
     (let evs = [Net_Send client_socket websocket_response] in
      if sent \<le> 0 then Some (False, server, evs)
      else
        case sc_webrtc_server_add_client server client_socket of
          None \<Rightarrow> None
        | Some (server, client_id) \<Rightarrow>
            if client_id < 0 then Some (False, server, evs)
            else
              Some (True, server,
                    if on_client_connected server
                    then evs @ [On_Client_Connected client_id] else evs))"

text \<open>
  C strings: \<open>c_str\<close> is a buffer up to its first NUL, \<open>strstr\<close> the offset of the
  first occurrence of the needle, \<open>None\<close> for \<open>NULL\<close>.
\<close>

definition c_str :: "string \<Rightarrow> string" where
  "c_str buffer = takeWhile (\<lambda>c. c \<noteq> CHR 0x00) buffer"

fun strstr :: "string \<Rightarrow> string \<Rightarrow> nat option" where
  "strstr [] needle = (if needle = [] then Some 0 else None)"
| "strstr (c # cs) needle =
     (if take (length needle) (c # cs) = needle then Some 0
      else map_option Suc (strstr cs needle))"

text \<open>
  \<open>%zu\<close>: a size in decimal.
\<close>

fun decimal :: "nat \<Rightarrow> string" where
  "decimal n =
     (if n < 10 then [char_of (48 + n)]
      else decimal (n div 10) @ [char_of (48 + n mod 10)])"

text \<open>
  The response \<open>snprintf\<close> builds from \<open>HTTP_RESPONSE_TEMPLATE\<close> and the page. The
  page \<open>HTML_CLIENT\<close>, a literal of some hundred lines, is a parameter here: nothing
  below depends on its text.
\<close>

definition http_response :: "string \<Rightarrow> string" where
  "http_response HTML_CLIENT =
     ''HTTP/1.1 200 OK'' @ CRLF @
     ''Content-Type: text/html'' @ CRLF @
     ''Access-Control-Allow-Origin: *'' @ CRLF @
     ''Access-Control-Allow-Methods: GET, POST, OPTIONS'' @ CRLF @
     ''Access-Control-Allow-Headers: Content-Type'' @ CRLF @
     ''Content-Length: '' @ decimal (length (c_str HTML_CLIENT)) @ CRLF @
     CRLF @
     c_str HTML_CLIENT"

text \<open>
  \<open>sc_webrtc_server_handle_http\<close>. \<open>net_recv\<close> returns \<open>received\<close> and leaves the
  bytes read in \<open>buffer\<close>; the source writes a NUL after them. \<open>sent\<close> is what the
  one call of \<open>net_send_all\<close> on the path taken returns.
\<close>

definition sc_webrtc_server_handle_http ::
  "string \<Rightarrow> sc_webrtc_server \<Rightarrow> sc_socket \<Rightarrow> int \<Rightarrow> string \<Rightarrow> int \<Rightarrow>
     (bool \<times> sc_webrtc_server \<times> event list) option" where
  "sc_webrtc_server_handle_http HTML_CLIENT server client_socket received buffer sent =
     (if received \<le> 0 then Some (False, server, [])
      else
        let buffer = take (nat received) buffer @ [CHR 0x00] in
        if strstr (c_str buffer) ''Upgrade: websocket'' \<noteq> None then
          sc_webrtc_server_handle_websocket server client_socket sent
        else
          Some (sent > 0, server, [Net_Send client_socket (http_response HTML_CLIENT)]))"

subsection \<open>The accept loop and stopping\<close>

text \<open>
  One turn of the loop of \<open>run_webrtc_server\<close>, from the return of \<open>net_accept\<close> to
  the end of the loop body; \<open>client_socket\<close> is what \<open>net_accept\<close> returned.
\<close>

definition run_webrtc_server_turn ::
  "string \<Rightarrow> sc_webrtc_server \<Rightarrow> sc_socket \<Rightarrow> int \<Rightarrow> string \<Rightarrow> int \<Rightarrow>
     (sc_webrtc_server \<times> event list) option" where
  "run_webrtc_server_turn HTML_CLIENT server client_socket received buffer sent =
     (if client_socket = SC_SOCKET_NONE then Some (server, [])
      else
        case sc_webrtc_server_handle_http HTML_CLIENT server client_socket received buffer sent of
          None \<Rightarrow> None
        | Some (handled, server, evs) \<Rightarrow>
            Some (server, if \<not> handled then evs @ [Net_Close client_socket] else evs))"

text \<open>
  The loop of \<open>sc_webrtc_server_stop\<close> over the client table, from index \<open>i\<close> on.
\<close>

function stop_clients :: "sc_webrtc_server \<Rightarrow> int \<Rightarrow> (sc_webrtc_server \<times> event list) option" where
  "stop_clients server i =
     (if i < client_count server then
        if connected (clients server ! nat i) then
          case sc_webrtc_server_remove_client server i of
            None \<Rightarrow> None
          | Some (server', evs) \<Rightarrow>
              (case stop_clients server' (i + 1) of
                 None \<Rightarrow> None
               | Some (server'', evs') \<Rightarrow> Some (server'', evs @ evs'))
        else stop_clients server (i + 1)
      else Some (server, []))"
  by pat_completeness auto
termination
proof (relation "measure (\<lambda>(server, i). nat (client_count server - i))")
  show "wf (measure (\<lambda>(server, i). nat (client_count server - i)))" by simp
next
  fix server :: sc_webrtc_server and i :: int and x2 server' evs
  assume "i < client_count server"
    and "sc_webrtc_server_remove_client server i = Some x2"
    and "(server', evs) = x2"
  then have "client_count server' = client_count server"
    by (auto simp: sc_webrtc_server_remove_client_def Let_def
          split: option.splits if_splits prod.splits)
  then show "((server', i + 1), (server, i)) \<in> measure (\<lambda>(server, i). nat (client_count server - i))"
    using \<open>i < client_count server\<close> by simp
next
  fix server :: sc_webrtc_server and i :: int
  assume "i < client_count server"
  then show "((server, i + 1), (server, i)) \<in> measure (\<lambda>(server, i). nat (client_count server - i))"
    by simp
qed

text \<open>
  \<open>sc_webrtc_server_stop\<close>.
\<close>

definition sc_webrtc_server_stop :: "sc_webrtc_server \<Rightarrow> (sc_webrtc_server \<times> event list) option" where
  "sc_webrtc_server_stop server =
     (let server = server\<lparr>stopped := True\<rparr> in
      case sc_mutex_lock (mutex server) of
        None \<Rightarrow> None
      | Some m \<Rightarrow>
          (case stop_clients (server\<lparr>mutex := m\<rparr>) 0 of
             None \<Rightarrow> None
           | Some (server, evs) \<Rightarrow>
               let server = server\<lparr>mutex := sc_mutex_unlock (mutex server)\<rparr> in
               if server_socket server \<noteq> SC_SOCKET_NONE then
                 Some (server\<lparr>server_socket := SC_SOCKET_NONE\<rparr>,
                       evs @ [Net_Close (server_socket server)])
               else Some (server, evs)))"

section \<open>The handshake token as the specification words it\<close>

text \<open>
  The source computes no accept token. The specification asks for the one of the
  WebSocket handshake: the client's key, followed by the protocol's fixed GUID, hashed
  with SHA-1, the 20-byte digest encoded in base64. These definitions follow those
  words, for comparison with what the source sends.
\<close>

type_synonym u32 = "32 word"

definition rotl32 :: "nat \<Rightarrow> u32 \<Rightarrow> u32" where
  "rotl32 n w = push_bit n w OR drop_bit (32 - n) w"

definition be32 :: "byte list \<Rightarrow> u32" where
  "be32 bs = foldl (\<lambda>a b. push_bit 8 a OR ucast b) 0 bs"

text \<open>
  Padding: a one bit, zeros up to 56 modulo 64 bytes, the length in bits in 8 bytes.
\<close>

definition sha1_pad :: "byte list \<Rightarrow> byte list" where
  "sha1_pad msg =
     msg @ [0x80] @ replicate ((119 - length msg mod 64) mod 64) 0 @
     map (\<lambda>i. of_nat ((8 * length msg) div 256 ^ (7 - i) mod 256)) [0..<8]"

text \<open>
  The message schedule of a 64-byte block: its 16 words, extended to 80.
\<close>

definition sha1_extend :: "nat \<Rightarrow> u32 list \<Rightarrow> u32 list" where
  "sha1_extend t w =
     w @ [rotl32 1 (w ! (t - 3) XOR w ! (t - 8) XOR w ! (t - 14) XOR w ! (t - 16))]"

definition sha1_schedule :: "byte list \<Rightarrow> u32 list" where
  "sha1_schedule block =
     fold sha1_extend [16..<80] (map (\<lambda>i. be32 (take 4 (drop (4 * i) block))) [0..<16])"

type_synonym sha1_state = "u32 \<times> u32 \<times> u32 \<times> u32 \<times> u32"

definition sha1_round :: "u32 list \<Rightarrow> nat \<Rightarrow> sha1_state \<Rightarrow> sha1_state" where
  "sha1_round w t s =
     (case s of (a, b, c, d, e) \<Rightarrow>
        let f = (if t < 20 then (b AND c) OR (NOT b AND d)
                 else if t < 40 then b XOR c XOR d
                 else if t < 60 then (b AND c) OR (b AND d) OR (c AND d)
                 else b XOR c XOR d);
            k = (if t < 20 then 0x5A827999
                 else if t < 40 then 0x6ED9EBA1
                 else if t < 60 then 0x8F1BBCDC
                 else 0xCA62C1D6)
        in (rotl32 5 a + f + e + k + w ! t, a, rotl32 30 b, c, d))"

definition sha1_block :: "sha1_state \<Rightarrow> byte list \<Rightarrow> sha1_state" where
  "sha1_block h block =
     (case h of (h0, h1, h2, h3, h4) \<Rightarrow>
        case fold (sha1_round (sha1_schedule block)) [0..<80] h of (a, b, c, d, e) \<Rightarrow>
          (h0 + a, h1 + b, h2 + c, h3 + d, h4 + e))"

definition sha1_blocks :: "byte list \<Rightarrow> nat \<Rightarrow> sha1_state \<Rightarrow> sha1_state" where
  "sha1_blocks padded i h = sha1_block h (take 64 (drop (64 * i) padded))"

definition sha1 :: "byte list \<Rightarrow> byte list" where
  "sha1 msg =
     (case fold (sha1_blocks (sha1_pad msg)) [0..<length (sha1_pad msg) div 64]
             (0x67452301, 0xEFCDAB89, 0x98BADCFE, 0x10325476, 0xC3D2E1F0)
      of (h0, h1, h2, h3, h4) \<Rightarrow>
        concat (map (\<lambda>h. map (\<lambda>i. ucast (drop_bit (8 * (3 - i)) h)) [0..<4])
                  [h0, h1, h2, h3, h4]))"

definition base64_alphabet :: string where
  "base64_alphabet = ''ABCDEFGHIJKLMNOPQRSTUVWXYZabcdefghijklmnopqrstuvwxyz0123456789+/''"

fun base64 :: "byte list \<Rightarrow> string" where
  "base64 (a # b # c # rest) =
     (let n = unat a * 65536 + unat b * 256 + unat c in
      [base64_alphabet ! (n div 262144), base64_alphabet ! (n div 4096 mod 64),
       base64_alphabet ! (n div 64 mod 64), base64_alphabet ! (n mod 64)] @ base64 rest)"
| "base64 [a, b] =
     (let n = unat a * 65536 + unat b * 256 in
      [base64_alphabet ! (n div 262144), base64_alphabet ! (n div 4096 mod 64),
       base64_alphabet ! (n div 64 mod 64), CHR ''=''])"
| "base64 [a] =
     (let n = unat a * 65536 in
      [base64_alphabet ! (n div 262144), base64_alphabet ! (n div 4096 mod 64),
       CHR ''='', CHR ''=''])"
| "base64 [] = []"

definition websocket_guid :: string where
  "websocket_guid = ''258EAFA5-E914-47DA-95CA-C5AB0DC85B11''"

definition websocket_accept :: "string \<Rightarrow> string" where
  "websocket_accept key = base64 (sha1 (map of_char (key @ websocket_guid)))"

section \<open>Bytes and sizes\<close>

lemma bit_255: "bit (255 :: int) k \<longleftrightarrow> k < 8"
proof -
  have "bit (mask 8 :: int) k \<longleftrightarrow> k < 8" by (simp add: bit_mask_iff)
  then show ?thesis by (simp add: mask_eq_exp_minus_1)
qed

lemma byte_less_256: "unat (b :: byte) < 256"
  using unsigned_less[of b] by simp

lemma low7: "unat (ucast ((b::byte) AND 0x7F) :: size_t) = unat b mod 128"
proof -
  have "b AND 0x7F = take_bit 7 b" by (simp add: take_bit_eq_mask mask_eq_exp_minus_1)
  then have "unat (ucast (b AND 0x7F) :: size_t) = take_bit 64 (take_bit 7 (unat b))"
    by (simp only: unsigned_ucast_eq unsigned_take_bit_eq) simp
  also have "\<dots> = take_bit 7 (unat b)" by simp
  finally show ?thesis by (simp add: take_bit_eq_mod)
qed

lemma hibit: "((b::byte) AND 0x80 \<noteq> 0) \<longleftrightarrow> 128 \<le> unat b"
proof -
  have "b AND 0x80 = b AND 2 ^ 7" by simp
  then have "(b AND 0x80 \<noteq> 0) \<longleftrightarrow> bit b 7" by (simp only: and_exp_eq_0_iff_not_bit) simp
  also have "\<dots> \<longleftrightarrow> bit (unat b) 7" by (simp add: bit_unsigned_iff)
  also have "\<dots> \<longleftrightarrow> odd (unat b div 128)" by (simp add: bit_iff_odd_drop_bit drop_bit_eq_div)
  also have "\<dots> \<longleftrightarrow> 128 \<le> unat b"
  proof -
    have "unat b div 128 = (if 128 \<le> unat b then 1 else 0)" using byte_less_256[of b] by auto
    then show ?thesis by simp
  qed
  finally show ?thesis .
qed

lemma nat_shift_or: 
  fixes m k :: nat
  assumes "k < 256"
  shows "push_bit 8 m OR k = m * 256 + k"
proof -
  have "take_bit 8 k = k" using assms by (simp add: take_bit_nat_eq_self)
  then have k8: "\<And>n. bit k n \<Longrightarrow> n < 8" by (metis bit_take_bit_iff)
  have "push_bit 8 m + k = push_bit 8 m OR k"
    by (intro disjunctive_add) (use k8 in \<open>fastforce simp: bit_push_bit_iff\<close>)
  then show ?thesis by (simp add: push_bit_eq_mult)
qed

lemma shift_or_unat: 
  fixes x :: size_t and b :: byte
  assumes "unat x < 2 ^ 56"
  shows "unat (push_bit 8 x OR ucast b) = unat x * 256 + unat b"
proof -
  have b: "unat b < 256" by (rule byte_less_256)
  have "push_bit 8 (unat x) < 2 ^ 64" using assms by (simp add: push_bit_eq_mult)
  then have "take_bit 64 (push_bit 8 (unat x)) = push_bit 8 (unat x)"
    by (simp add: take_bit_nat_eq_self)
  moreover have "take_bit 64 (unat b) = unat b" using b by (simp add: take_bit_nat_eq_self)
  ultimately have "unat (push_bit 8 x OR ucast b) = push_bit 8 (unat x) OR unat b"
    by (simp add: unsigned_or_eq unsigned_push_bit_eq unsigned_ucast_eq)
  then show ?thesis using nat_shift_or[OF b] by simp
qed

lemma fold_shift_or:
  fixes acc :: size_t and bs :: "byte list"
  assumes "length bs \<le> 8" "unat acc < 2 ^ (64 - 8 * length bs)"
  shows "unat (fold (\<lambda>b pl. push_bit 8 pl OR ucast b) bs acc) = foldl (\<lambda>a b. a * 256 + unat b) (unat acc) bs"
  using assms
proof (induction bs arbitrary: acc)
  case Nil
  then show ?case by simp
next
  case (Cons b bs)
  let ?acc = "push_bit 8 acc OR ucast b"
  have e: "64 - 8 * length bs = (64 - 8 * length (b # bs)) + 8" using Cons.prems(1) by simp
  have "(2::nat) ^ (64 - 8 * length (b # bs)) \<le> 2 ^ 56"
    by (rule power_increasing) simp_all
  then have lt: "unat acc < 2 ^ 56" using Cons.prems(2) by simp
  have u: "unat ?acc = unat acc * 256 + unat b" by (rule shift_or_unat[OF lt])
  have b: "unat b < 256" by (rule byte_less_256)
  have "unat acc + 1 \<le> 2 ^ (64 - 8 * length (b # bs))" using Cons.prems(2) by simp
  then have "(unat acc + 1) * 256 \<le> 2 ^ (64 - 8 * length (b # bs)) * 256" by simp
  also have "\<dots> = 2 ^ (64 - 8 * length bs)" by (simp only: e power_add) simp
  finally have "unat ?acc < 2 ^ (64 - 8 * length bs)" using u b by simp
  moreover have "length bs \<le> 8" using Cons.prems(1) by simp
  ultimately have "unat (fold (\<lambda>b pl. push_bit 8 pl OR ucast b) bs ?acc)
      = foldl (\<lambda>a b. a * 256 + unat b) (unat ?acc) bs"
    by (rule Cons.IH[rotated])
  then show ?case by (simp add: u)
qed

lemma upt8: "[0..<8] = [0,1,2,3,4,5,6,7]" by (simp add: upt_rec)

lemma take8_drop2:
  assumes "10 \<le> length data"
  shows "take 8 (drop 2 data) = map (\<lambda>i. data ! (2 + i)) [0..<8]"
  using assms by (auto simp: list_eq_iff_nth_eq)

lemma ext64_be:
  assumes "10 \<le> length data"
  shows "unat (ext64 data) = be_nat (take 8 (drop 2 data))"
proof -
  have "ext64 data = fold (\<lambda>b pl. push_bit 8 pl OR ucast b) (map (\<lambda>i. data ! (2 + i)) [0..<8]) 0"
    by (simp add: ext64_def fold_map comp_def)
  also have "\<dots> = fold (\<lambda>b pl. push_bit 8 pl OR ucast b) (take 8 (drop 2 data)) 0"
    by (simp only: take8_drop2[OF assms])
  finally have "unat (ext64 data) = foldl (\<lambda>a b. a * 256 + unat b) (unat (0::size_t)) (take 8 (drop 2 data))"
    using fold_shift_or[of "take 8 (drop 2 data)" 0] assms by simp
  then show ?thesis by (simp add: be_nat_def)
qed

lemma ext16_ucast: "ext16 data = (push_bit 8 (ucast (data ! 2)) OR ucast (data ! 3))"
  unfolding ext16_def
  by (rule bit_word_eqI) (auto simp add: bit_word_scast_iff bit_word_ucast_iff bit_or_iff bit_push_bit_iff)

lemma ext16_be:
  assumes "4 \<le> length data"
  shows "unat (ext16 data) = be_nat (take 2 (drop 2 data))"
proof -
  have t: "take 2 (drop 2 data) = [data ! 2, data ! 3]"
  proof (rule nth_equalityI)
    show "length (take 2 (drop 2 data)) = length [data ! 2, data ! 3]" using assms by simp
    fix i assume "i < length (take 2 (drop 2 data))"
    then have "i = 0 \<or> i = 1" using assms by auto
    then show "take 2 (drop 2 data) ! i = [data ! 2, data ! 3] ! i"
      using assms by (auto simp: numeral_3_eq_3 numeral_2_eq_2)
  qed
  have b: "unat (data ! 2) < 256" by (rule byte_less_256)
  have "unat (ucast (data ! 2) :: size_t) = unat (data ! 2)"
    using b by (simp add: unsigned_ucast_eq take_bit_nat_eq_self)
  then have "unat (ucast (data ! 2) :: size_t) < 2 ^ 56" using b by simp
  then have "unat (ext16 data) = unat (ucast (data ! 2) :: size_t) * 256 + unat (data ! 3)"
    unfolding ext16_ucast by (rule shift_or_unat)
  then show ?thesis using b by (simp add: t be_nat_def unsigned_ucast_eq take_bit_nat_eq_self)
qed

lemma len7_eq:
  fixes b :: byte
  shows "((ucast (b AND 0x7F) :: size_t) = 126) = (unat b mod 128 = 126)"
    and "((ucast (b AND 0x7F) :: size_t) = 127) = (unat b mod 128 = 127)"
  using low7[of b] by (simp_all add: word_unat_eq_iff)

lemma succ_eq_0: "((w :: size_t) + 1 = 0) = (unat w = 2 ^ 64 - 1)"
proof -
  have "(w + 1 = 0) = (w = - 1)" by (simp add: eq_neg_iff_add_eq_0)
  also have "\<dots> = (unat w = unat (- 1 :: size_t))" by (simp only: word_unat_eq_iff)
  finally show ?thesis by (simp add: unsigned_minus_1_eq_mask mask_eq_exp_minus_1)
qed

lemma copy_payload_nat:
  fixes payload_length header_len0 :: size_t
  assumes hl: "unat (if masked then header_len0 + 4 else header_len0) = hl"
      and pl: "unat payload_length = pl"
  shows
   "copy_payload malloc_ok data masked payload_length header_len0
    = (if length data < (hl + pl) mod 2 ^ 64 then Return_False
       else if \<not> malloc_ok (of_nat pl + 1) then Return_False
       else if length data < hl + pl \<or> pl = 2 ^ 64 - 1 then Fault
       else
         let payload = take pl (drop hl data) @ [0]
         in Return_True
              (if masked then unmask (take 4 (drop (hl - 4) data)) pl payload else payload,
               of_nat pl))"
proof -
  have w: "of_nat pl = payload_length" using pl by auto
  have s: "unat ((if masked then header_len0 + 4 else header_len0) + payload_length) = (hl + pl) mod 2 ^ 64"
    using hl pl by (simp add: unat_word_ariths)
  show ?thesis
    unfolding copy_payload_def Let_def s w succ_eq_0 hl pl by simp
qed

lemma parse_websocket_frame_declared:
  "parse_websocket_frame malloc_ok data =
     (case declared_frame data of
        None \<Rightarrow> Return_False
      | Some (hl, pl) \<Rightarrow>
          if length data < (hl + pl) mod 2 ^ 64 then Return_False
          else if \<not> malloc_ok (of_nat pl + 1) then Return_False
          else if length data < hl + pl \<or> pl = 2 ^ 64 - 1 then Fault
          else
            let payload = take pl (drop hl data) @ [0]
            in Return_True
                 (if data ! 1 AND 0x80 \<noteq> 0
                  then unmask (take 4 (drop (hl - 4) data)) pl payload else payload,
                  of_nat pl))"
proof (cases "length data < 2")
  case True
  then show ?thesis by (simp add: parse_websocket_frame_def declared_frame_def)
next
  case long: False
  let ?b = "data ! 1"
  let ?k = "if 128 \<le> unat ?b then 4 else 0 :: nat"
  have k: "\<And>h :: size_t. unat h + 4 < 2 ^ 64 \<Longrightarrow>
             unat (if ?b AND 0x80 \<noteq> 0 then h + 4 else h) = unat h + ?k"
    by (simp add: hibit unat_word_ariths)
  consider (m16) "unat ?b mod 128 = 126" | (m64) "unat ?b mod 128 = 127"
    | (short) "unat ?b mod 128 \<noteq> 126" "unat ?b mod 128 \<noteq> 127"
    by blast
  then show ?thesis
  proof cases
    case m16
    show ?thesis
    proof (cases "length data < 4")
      case True
      then show ?thesis using long m16
        by (simp add: parse_websocket_frame_def declared_frame_def len7_eq)
    next
      case False
      then have d: "declared_frame data = Some (4 + ?k, be_nat (take 2 (drop 2 data)))"
        using long m16 by (simp add: declared_frame_def)
      have p: "unat (ext16 data) = be_nat (take 2 (drop 2 data))"
        using False by (simp add: ext16_be)
      have h: "unat (if ?b AND 0x80 \<noteq> 0 then (4 :: size_t) + 4 else 4) = 4 + ?k"
        using k[of 4] by simp
      show ?thesis
        using long False m16 copy_payload_nat[OF h p, of malloc_ok data]
        by (simp add: parse_websocket_frame_def d len7_eq hibit)
    qed
  next
    case m64
    show ?thesis
    proof (cases "length data < 10")
      case True
      then show ?thesis using long m64
        by (simp add: parse_websocket_frame_def declared_frame_def len7_eq)
    next
      case False
      then have d: "declared_frame data = Some (10 + ?k, be_nat (take 8 (drop 2 data)))"
        using long m64 by (simp add: declared_frame_def)
      have p: "unat (ext64 data) = be_nat (take 8 (drop 2 data))"
        using False by (simp add: ext64_be)
      have h: "unat (if ?b AND 0x80 \<noteq> 0 then (10 :: size_t) + 4 else 10) = 10 + ?k"
        using k[of 10] by simp
      show ?thesis
        using long False m64 copy_payload_nat[OF h p, of malloc_ok data]
        by (simp add: parse_websocket_frame_def d len7_eq hibit)
    qed
  next
    case short
    have d: "declared_frame data = Some (2 + ?k, unat ?b mod 128)"
      using long short by (simp add: declared_frame_def)
    have p: "unat (ucast (?b AND 0x7F) :: size_t) = unat ?b mod 128" by (rule low7)
    have h: "unat (if ?b AND 0x80 \<noteq> 0 then (2 :: size_t) + 4 else 2) = 2 + ?k"
      using k[of 2] by simp
    show ?thesis
      using long short copy_payload_nat[OF h p, of malloc_ok data]
      by (simp add: parse_websocket_frame_def d len7_eq hibit)
  qed
qed

lemma unmask_length: "length (unmask m n p) = length p"
  unfolding unmask_def by (induction n arbitrary: p) simp_all

lemma unmask_nth:
  "i < length p \<Longrightarrow> unmask m n p ! i = (if i < n then p ! i XOR m ! (i mod 4) else p ! i)"
proof (induction n arbitrary: p)
  case 0
  then show ?case by (simp add: unmask_def)
next
  case (Suc n)
  have l: "length (unmask m n p) = length p" by (rule unmask_length)
  have "unmask m (Suc n) p = (unmask m n p)[n := unmask m n p ! n XOR m ! (n mod 4)]"
    by (simp add: unmask_def)
  then show ?case using Suc l by (auto simp: nth_list_update less_Suc_eq)
qed

lemma declared_frame_header_ge:
  assumes "declared_frame data = Some (hl, pl)" "data ! 1 AND 0x80 \<noteq> 0"
  shows "6 \<le> hl"
  using assms by (auto simp: declared_frame_def hibit Let_def split: if_splits)

text \<open>
  Claim C9. A buffer that holds a whole frame whose mask bit is set parses (the
  allocation granted), and byte \<open>i\<close> of the returned payload is byte \<open>i\<close> of
  the raw payload XORed with byte \<open>i mod 4\<close> of the 4-byte key that ends the header,
  for every \<open>i\<close> below the payload length; the block ends with a NUL.
\<close>

theorem parse_websocket_frame_unmasks:
  assumes "declared_frame data = Some (hl, pl)"
      and "data ! 1 AND 0x80 \<noteq> 0"
      and "hl + pl \<le> length data"
      and "length data < 2 ^ 64"
      and "malloc_ok (of_nat pl + 1)"
  shows "\<exists>payload.
           parse_websocket_frame malloc_ok data = Return_True (payload, of_nat pl) \<and>
           length payload = pl + 1 \<and> payload ! pl = 0 \<and>
           (\<forall>i < pl. payload ! i = data ! (hl + i) XOR data ! (hl - 4 + i mod 4))"
proof -
  let ?raw = "take pl (drop hl data) @ [0]"
  let ?key = "take 4 (drop (hl - 4) data)"
  have small: "hl + pl < 2 ^ 64" using assms(3,4) by simp
  then have "(hl + pl) mod 2 ^ 64 = hl + pl" by simp
  moreover have hl6: "6 \<le> hl" using assms(1,2) by (rule declared_frame_header_ge)
  then have "pl \<noteq> 2 ^ 64 - 1" using small by simp
  ultimately have p: "parse_websocket_frame malloc_ok data = Return_True (unmask ?key pl ?raw, of_nat pl)"
    using assms by (simp add: parse_websocket_frame_declared)
  have len: "length ?raw = pl + 1" using assms(3) by simp
  have "unmask ?key pl ?raw ! i = data ! (hl + i) XOR data ! (hl - 4 + i mod 4)" if "i < pl" for i
  proof -
    have "i mod 4 < 4" by simp
    then have "?key ! (i mod 4) = data ! (hl - 4 + i mod 4)"
      using hl6 assms(3) by simp
    moreover have "?raw ! i = data ! (hl + i)" using that assms(3) by (simp add: nth_append)
    ultimately show ?thesis using that len by (simp add: unmask_nth)
  qed
  moreover have "unmask ?key pl ?raw ! pl = 0" using len by (simp add: unmask_nth nth_append)
  ultimately show ?thesis using p len by (simp add: unmask_length)
qed

text \<open>
  The key \<open>[1, 2, 3, 4]\<close> and the masked payload \<open>AB\<close>.
\<close>

theorem parse_websocket_frame_unmasks_witness:
  "parse_websocket_frame (\<lambda>n. True) [0x81, 0x82, 1, 2, 3, 4, 0x41, 0x42]
     = Return_True ([0x41 XOR 1, 0x42 XOR 2, 0], 2)"
proof -
  let ?data = "[0x81, 0x82, 1, 2, 3, 4, 0x41, 0x42] :: byte list"
  have d: "declared_frame ?data = Some (6, 2)" by (simp add: declared_frame_def)
  have m: "?data ! 1 AND 0x80 \<noteq> 0" by simp
  obtain payload where
    r: "parse_websocket_frame (\<lambda>n. True) ?data = Return_True (payload, of_nat 2)" and
    l: "length payload = 2 + 1" and z: "payload ! 2 = 0" and
    x: "\<forall>i < 2. payload ! i = ?data ! (6 + i) XOR ?data ! (6 - 4 + i mod 4)"
    using parse_websocket_frame_unmasks[OF d m, of "\<lambda>n. True"] by auto
  have p0: "payload ! 0 = 0x41 XOR 1" using x[rule_format, of 0] by simp
  have p1: "payload ! 1 = 0x42 XOR 2" using x[rule_format, of 1] by simp
  have "payload = [payload ! 0, payload ! 1, payload ! 2]"
    using l by (auto simp: list_eq_iff_nth_eq less_Suc_eq numeral_3_eq_3 numeral_2_eq_2)
  then have "payload = [0x41 XOR 1, 0x42 XOR 2, 0]" by (simp only: p0 p1 z)
  then show ?thesis using r by simp
qed

section \<open>Building a text frame\<close>

lemma div_mod_bits: "(m :: nat) div 256 ^ j mod 256 = take_bit 8 (drop_bit (8 * j) m)"
proof -
  have "(256 :: nat) ^ j = 2 ^ (8 * j)" by (simp add: power_mult)
  then show ?thesis by (simp add: take_bit_eq_mod drop_bit_eq_div)
qed

lemma byte_of_drop:
  fixes w :: size_t
  shows "(ucast (drop_bit (8 * j) w AND 0xFF) :: byte) = of_nat (unat w div 256 ^ j mod 256)"
  unfolding div_mod_bits
  by (rule bit_word_eqI)
     (auto simp add: bit_word_ucast_iff bit_and_iff bit_drop_bit_eq bit_255 bit_of_nat_iff
        bit_take_bit_iff bit_unsigned_iff)

lemma unat_of_nat64: "n < 2 ^ 64 \<Longrightarrow> unat (of_nat n :: size_t) = n"
  by (simp add: unat_of_nat)

lemma of_nat_gt:
  assumes "n < 2 ^ 64"
  shows "((of_nat n :: size_t) > 65535) = (n > 65535)"
    and "((of_nat n :: size_t) > 125) = (n > 125)"
  using assms by (simp_all add: word_less_nat_alt unat_of_nat64)

lemma low7_byte:
  assumes "n \<le> 125"
  shows "(ucast ((of_nat n :: size_t) AND 0x7F) :: byte) = of_nat n"
proof -
  have "take_bit 7 n = n" using assms by (simp add: take_bit_nat_eq_self)
  then have n7: "\<And>k. bit n k \<Longrightarrow> k < 7" by (metis bit_take_bit_iff)
  have "bit (127 :: int) k \<longleftrightarrow> k < 7" for k
  proof -
    have "bit (mask 7 :: int) k \<longleftrightarrow> k < 7" by (simp add: bit_mask_iff)
    then show ?thesis by (simp add: mask_eq_exp_minus_1)
  qed
  then show ?thesis
    by (intro bit_word_eqI)
       (use n7 in \<open>fastforce simp add: bit_word_ucast_iff bit_and_iff bit_of_nat_iff\<close>)
qed

lemma create_header_eq:
  assumes "n < 2 ^ 64"
  shows "create_header (of_nat n) = text_frame_header n"
proof -
  have u: "unat (of_nat n :: size_t) = n" using assms by (rule unat_of_nat64)
  consider (short) "n \<le> 125" | (m16) "125 < n" "n \<le> 65535" | (m64) "65535 < n"
    by linarith
  then show ?thesis
  proof cases
    case short
    then show ?thesis
      using assms by (simp add: create_header_def text_frame_header_def of_nat_gt low7_byte)
  next
    case m16
    have "(ucast (drop_bit (8 * 1) (of_nat n :: size_t) AND 0xFF) :: byte) = of_nat (n div 256 mod 256)"
      using byte_of_drop[of 1 "of_nat n"] by (simp add: u)
    moreover have "n div 256 mod 256 = n div 256" using m16 by simp
    moreover have "(ucast (drop_bit (8 * 0) (of_nat n :: size_t) AND 0xFF) :: byte) = of_nat (n mod 256)"
      using byte_of_drop[of 0 "of_nat n"] by (simp add: u)
    ultimately show ?thesis
      using assms m16 by (simp add: create_header_def text_frame_header_def of_nat_gt)
  next
    case m64
    have "(ucast (drop_bit (8 * (7 - i)) (of_nat n :: size_t) AND 0xFF) :: byte)
            = of_nat (n div 256 ^ (7 - i) mod 256)" for i
      using byte_of_drop[of "7 - i" "of_nat n"] by (simp add: u)
    then show ?thesis
      using assms m64 by (simp add: create_header_def text_frame_header_def of_nat_gt)
  qed
qed

lemma length_text_frame_header:
  "length (text_frame_header n) = (if n \<le> 125 then 2 else if n \<le> 65535 then 4 else 10)"
  by (simp add: text_frame_header_def)

lemma create_header_len_eq:
  assumes "n < 2 ^ 64"
  shows "create_header_len (of_nat n) = of_nat (length (text_frame_header n))"
  using assms by (simp add: create_header_len_def length_text_frame_header of_nat_gt)

lemma create_websocket_frame_eq:
  assumes "length payload + 10 < 2 ^ 64"
  shows "create_websocket_frame malloc_ok payload =
           (if malloc_ok (of_nat (length (text_frame_header (length payload)) + length payload))
            then Return_True
                   (text_frame_header (length payload) @ payload,
                    of_nat (length (text_frame_header (length payload)) + length payload))
            else Return_False)"
proof -
  let ?n = "length payload"
  let ?h = "length (text_frame_header ?n)"
  have n: "?n < 2 ^ 64" using assms by simp
  have h: "?h \<le> 10" by (simp add: length_text_frame_header)
  then have hn: "?h + ?n < 2 ^ 64" using assms by simp
  have uh: "unat (of_nat ?h :: size_t) = ?h" using h by (simp add: unat_of_nat64)
  have "unat (of_nat ?h + of_nat ?n :: size_t) = ?h + ?n"
    using hn unat_of_nat64[of "?h + ?n"] by simp
  then show ?thesis
    using n by (simp add: create_websocket_frame_def create_header_eq create_header_len_eq uh Let_def)
qed

lemma text_frame_header_unmasked: "text_frame_header n ! 1 AND 0x80 = 0"
proof (cases "n \<le> 125")
  case True
  then have "unat (of_nat n :: byte) = n" by (simp add: unat_of_nat)
  then have "\<not> 128 \<le> unat (of_nat n :: byte)" using True by simp
  then have "(of_nat n :: byte) AND 0x80 = 0" using hibit[of "of_nat n"] by blast
  then show ?thesis using True by (simp add: text_frame_header_def)
next
  case False
  then show ?thesis by (simp add: text_frame_header_def)
qed

text \<open>
  Claim C8. For a payload of \<open>n\<close> bytes the frame is the header followed by the
  payload verbatim, and its size is the header length plus \<open>n\<close>. The header starts
  with FIN and opcode 1 (\<open>0x81\<close>), its second byte has the mask bit clear, and the
  length is one byte for \<open>n \<le> 125\<close>, the marker 126 and 2 bytes for
  \<open>n \<le> 65535\<close>, the marker 127 and 8 bytes above, most significant byte first.
  The function returns \<open>false\<close> only when the allocation fails. (A payload in memory
  has fewer than \<open>2 ^ 64 - 10\<close> bytes.)
\<close>

theorem create_websocket_frame_layout:
  assumes "length payload + 10 < 2 ^ 64"
  shows "\<exists>header.
           header =
             (if length payload \<le> 125 then [0x81, of_nat (length payload)]
              else if length payload \<le> 65535 then
                [0x81, 126, of_nat (length payload div 256), of_nat (length payload mod 256)]
              else
                [0x81, 127] @
                map (\<lambda>i. of_nat (length payload div 256 ^ (7 - i) mod 256)) [0..<8]) \<and>
           header ! 0 AND 0x0F = 1 \<and> header ! 0 AND 0x80 = 0x80 \<and>
           header ! 1 AND 0x80 = 0 \<and>
           create_websocket_frame malloc_ok payload =
             (if malloc_ok (of_nat (length header + length payload))
              then Return_True (header @ payload, of_nat (length (header @ payload)))
              else Return_False)"
proof -
  let ?header = "text_frame_header (length payload)"
  have "?header ! 0 = 0x81" by (simp add: text_frame_header_def)
  then have "?header ! 0 AND 0x0F = 1" "?header ! 0 AND 0x80 = 0x80" by simp_all
  moreover have "?header ! 1 AND 0x80 = 0" by (rule text_frame_header_unmasked)
  moreover note create_websocket_frame_eq[OF assms, of malloc_ok]
  ultimately show ?thesis by (simp add: text_frame_header_def)
qed

theorem create_websocket_frame_layout_witness:
  "create_websocket_frame (\<lambda>n. n \<le> 4096) (replicate 300 0x41)
     = Return_True ([0x81, 126, 1, 44] @ replicate 300 0x41, 304)"
  using create_websocket_frame_layout[of "replicate 300 0x41" "\<lambda>n. n \<le> 4096"]
  by simp

section \<open>Parsing what was built\<close>

lemma be_nat_snoc: "be_nat (bs @ [b]) = be_nat bs * 256 + unat b"
  by (simp add: be_nat_def)

lemma be_nat_digits:
  "be_nat (map (\<lambda>i. of_nat (n div 256 ^ (k - 1 - i) mod 256) :: byte) [0..<k]) = n mod 256 ^ k"
proof (induction k arbitrary: n)
  case 0
  then show ?case by (simp add: be_nat_def)
next
  case (Suc k)
  have "n div 256 ^ (Suc k - 1 - i) = n div 256 div 256 ^ (k - 1 - i)" if "i < k" for i
  proof -
    have "Suc k - 1 - i = Suc (k - 1 - i)" using that by simp
    then show ?thesis by (simp add: div_mult2_eq)
  qed
  then have m: "map (\<lambda>i. of_nat (n div 256 ^ (Suc k - 1 - i) mod 256) :: byte) [0..<k]
      = map (\<lambda>i. of_nat (n div 256 div 256 ^ (k - 1 - i) mod 256)) [0..<k]"
    by simp
  have "map (\<lambda>i. of_nat (n div 256 ^ (Suc k - 1 - i) mod 256) :: byte) [0..<Suc k]
      = map (\<lambda>i. of_nat (n div 256 ^ (Suc k - 1 - i) mod 256) :: byte) [0..<k]
        @ [of_nat (n mod 256)]"
    by simp
  then have "be_nat (map (\<lambda>i. of_nat (n div 256 ^ (Suc k - 1 - i) mod 256) :: byte) [0..<Suc k])
      = be_nat (map (\<lambda>i. of_nat (n div 256 div 256 ^ (k - 1 - i) mod 256) :: byte) [0..<k]) * 256
        + unat (of_nat (n mod 256) :: byte)"
    by (simp only: m be_nat_snoc)
  also have "\<dots> = (n div 256 mod 256 ^ k) * 256 + n mod 256"
    by (simp only: Suc.IH) (simp add: unat_of_nat)
  also have "\<dots> = n mod 256 ^ Suc k"
    by (simp add: mod_mult2_eq)
  finally show ?case .
qed

lemma be_nat_header64:
  assumes "n < 2 ^ 64"
  shows "be_nat (map (\<lambda>i. of_nat (n div 256 ^ (7 - i) mod 256) :: byte) [0..<8]) = n"
proof -
  have "(256 :: nat) ^ 8 = 2 ^ 64" by simp
  then have "n mod 256 ^ 8 = n" using assms by simp
  then show ?thesis using be_nat_digits[of n 8] by simp
qed

lemma be_nat_header16:
  assumes "n \<le> 65535"
  shows "be_nat [of_nat (n div 256) :: byte, of_nat (n mod 256)] = n"
proof -
  have "n div 256 < 256" using assms by simp
  then have "unat (of_nat (n div 256) :: byte) = n div 256" by (simp add: unat_of_nat)
  then show ?thesis by (simp add: be_nat_def unat_of_nat)
qed

lemma declared_text_frame:
  assumes "n < 2 ^ 64"
  shows "declared_frame (text_frame_header n @ payload) = Some (length (text_frame_header n), n)"
proof -
  consider (short) "n \<le> 125" | (m16) "125 < n" "n \<le> 65535" | (m64) "65535 < n"
    by linarith
  then show ?thesis
  proof cases
    case short
    then have "unat (of_nat n :: byte) = n" by (simp add: unat_of_nat)
    then show ?thesis using short by (simp add: declared_frame_def text_frame_header_def)
  next
    case m16
    then show ?thesis
      using be_nat_header16[of n] by (simp add: declared_frame_def text_frame_header_def)
  next
    case m64
    then show ?thesis
      using be_nat_header64[OF assms] by (simp add: declared_frame_def text_frame_header_def)
  qed
qed

text \<open>
  Claim C3. When \<open>create_websocket_frame\<close> has produced a frame for a payload,
  parsing that frame succeeds (the allocation granted) and returns the payload bytes,
  followed by the terminating NUL, and the payload length. This holds for every length,
  so in each of the three encodings.
\<close>

theorem parse_create_roundtrip:
  assumes "create_websocket_frame malloc_ok payload = Return_True (frame, frame_len)"
      and "malloc_ok' (of_nat (length payload) + 1)"
  shows "parse_websocket_frame malloc_ok' frame
           = Return_True (payload @ [0], of_nat (length payload))"
proof -
  let ?n = "length payload"
  let ?w = "of_nat ?n :: size_t"
  let ?header = "text_frame_header ?n"
  have fr: "frame = create_header ?w @ payload"
    and nowrap: "unat (create_header_len ?w) + ?n = unat (create_header_len ?w + ?w)"
    using assms(1) by (auto simp: create_websocket_frame_def Let_def split: if_splits)
  have "unat (create_header_len ?w + ?w) < 2 ^ 64"
    using unsigned_less[of "create_header_len ?w + ?w"] by simp
  moreover have "2 \<le> unat (create_header_len ?w)" by (simp add: create_header_len_def)
  ultimately have n: "?n + 2 < 2 ^ 64" using nowrap by simp
  then have n': "?n < 2 ^ 64" by simp
  have frame: "frame = ?header @ payload" using n' by (simp add: fr create_header_eq)
  have h: "2 \<le> length ?header" "length ?header \<le> 10"
    by (simp_all add: length_text_frame_header)
  have "length ?header + ?n = unat (create_header_len ?w) + ?n"
    using h(2) by (simp add: create_header_len_eq[OF n'] unat_of_nat64)
  then have small: "length ?header + ?n < 2 ^ 64"
    using nowrap unsigned_less[of "create_header_len ?w + ?w"] by simp
  have d: "declared_frame frame = Some (length ?header, ?n)"
    unfolding frame using n' by (rule declared_text_frame)
  have "frame ! 1 = ?header ! 1" using h(1) by (simp add: frame nth_append)
  then have unmasked: "frame ! 1 AND 0x80 = 0" by (simp only: text_frame_header_unmasked)
  have "?n \<noteq> 2 ^ 64 - 1" using n by simp
  moreover have "(length ?header + ?n) mod 2 ^ 64 = length ?header + ?n" using small by simp
  moreover have "length frame = length ?header + ?n" by (simp add: frame)
  moreover have "take ?n (drop (length ?header) frame) = payload" by (simp add: frame)
  moreover have "frame ! Suc 0 AND 0x80 = 0" using unmasked by simp
  ultimately show ?thesis
    using assms(2) by (simp add: parse_websocket_frame_declared d)
qed

text \<open>
  Payloads of 0, 1, 125, 126, 65535 and 65536 bytes, the ends of the three encodings:
  each is built into a frame, and the frame parses back to it.
\<close>

theorem parse_create_roundtrip_witness:
  "map (\<lambda>n. \<exists>frame frame_len.
               create_websocket_frame (\<lambda>n. True) (replicate n 0x41)
                 = Return_True (frame, frame_len) \<and>
               parse_websocket_frame (\<lambda>n. True) frame
                 = Return_True (replicate n 0x41 @ [0], of_nat n))
       [0, 1, 125, 126, 65535, 65536]
   = [True, True, True, True, True, True]"
proof -
  have r: "\<exists>frame frame_len.
               create_websocket_frame (\<lambda>n. True) (replicate n 0x41)
                 = Return_True (frame, frame_len) \<and>
               parse_websocket_frame (\<lambda>n. True) frame
                 = Return_True (replicate n 0x41 @ [0], of_nat n)" if "n + 10 < 2 ^ 64" for n
  proof -
    let ?p = "replicate n 0x41 :: byte list"
    have "length ?p + 10 < 2 ^ 64" using that by simp
    then have "\<exists>frame frame_len.
        create_websocket_frame (\<lambda>n. True) ?p = Return_True (frame, frame_len)"
      by (simp only: create_websocket_frame_eq) simp
    then obtain frame frame_len where
      c: "create_websocket_frame (\<lambda>n. True) ?p = Return_True (frame, frame_len)"
      by blast
    have "parse_websocket_frame (\<lambda>n. True) frame = Return_True (?p @ [0], of_nat (length ?p))"
      using parse_create_roundtrip[OF c, of "\<lambda>n. True"] by simp
    then show ?thesis using c by simp
  qed
  show ?thesis
    using r[of 0] r[of 1] r[of 125] r[of 126] r[of 65535] r[of 65536] by simp
qed

section \<open>Buffers shorter than the frame they declare\<close>

lemma parse_websocket_frame_short:
  assumes "declared_frame data = Some (hl, pl)"
      and "hl + pl < 2 ^ 64"
      and "length data < hl + pl"
  shows "parse_websocket_frame malloc_ok data = Return_False"
  using assms by (simp add: parse_websocket_frame_declared)

lemma parse_websocket_frame_no_header:
  assumes "declared_frame data = None"
  shows "parse_websocket_frame malloc_ok data = Return_False"
  using assms by (simp add: parse_websocket_frame_declared)

text \<open>
  Claim C2. The claim fails on the source. This buffer is 10 bytes long: a 10-byte
  header with the marker 127 and the 64-bit length \<open>2 ^ 64 - 1\<close>, and no payload. The
  sum \<open>header_len + payload_length\<close> wraps around to 9, so the test
  \<open>len < header_len + payload_length\<close> does not reject the buffer; \<open>malloc\<close> is
  called with the wrapped size 0, and when it returns a block \<open>memcpy\<close> reads
  \<open>2 ^ 64 - 1\<close> bytes past the end of the buffer. (Where the sum does not wrap, the
  function returns \<open>false\<close>: \<open>parse_websocket_frame_short\<close>.)
\<close>

theorem parse_websocket_frame_length_wraps:
  "declared_frame [0x81, 0x7F, 0xFF, 0xFF, 0xFF, 0xFF, 0xFF, 0xFF, 0xFF, 0xFF]
     = Some (10, 2 ^ 64 - 1) \<and>
   parse_websocket_frame (\<lambda>n. n \<le> 4096)
     [0x81, 0x7F, 0xFF, 0xFF, 0xFF, 0xFF, 0xFF, 0xFF, 0xFF, 0xFF] = Fault"
proof -
  have "declared_frame [0x81, 0x7F, 0xFF, 0xFF, 0xFF, 0xFF, 0xFF, 0xFF, 0xFF, 0xFF]
     = Some (10, 2 ^ 64 - 1)"
    by (simp add: declared_frame_def be_nat_def)
  then show ?thesis by (simp add: parse_websocket_frame_declared)
qed

section \<open>The lock\<close>

lemma lock_unlock:
  assumes "depth m = 0 \<or> recursive m"
  shows "\<exists>m'. sc_mutex_lock m = Some m' \<and> sc_mutex_unlock m' = m"
  using assms by (auto simp: sc_mutex_lock_def sc_mutex_unlock_def)

lemma lock_held_plain:
  assumes "depth m \<noteq> 0" "\<not> recursive m"
  shows "sc_mutex_lock m = None"
  using assms by (simp add: sc_mutex_lock_def)

section \<open>The client registry\<close>

lemma add_client_eq:
  assumes "depth (mutex server) = 0 \<or> recursive (mutex server)"
  shows "sc_webrtc_server_add_client server client_socket =
     Some (if client_count server \<ge> SC_WEBRTC_MAX_CLIENTS then (server, - 1)
           else (server
                  \<lparr>clients := (clients server)[nat (client_count server) :=
                     (clients server ! nat (client_count server))
                       \<lparr>id_c := client_count server,
                        socket := client_socket,
                        connected := True,
                        peer_connection := None,
                        data_channel := None\<rparr>],
                   client_count := client_count server + 1\<rparr>,
                 client_count server))"
proof -
  obtain m' where "sc_mutex_lock (mutex server) = Some m'" "sc_mutex_unlock m' = mutex server"
    using lock_unlock[OF assms] by blast
  then show ?thesis
    by (simp add: sc_webrtc_server_add_client_def Let_def)
qed

lemma peer_connection_already_null:
  assumes "peer_connection c = None"
  shows "c\<lparr>connected := b, peer_connection := None\<rparr> = c\<lparr>connected := b\<rparr>"
  using assms by (cases c) simp

lemma remove_client_eq:
  assumes "depth (mutex server) = 0 \<or> recursive (mutex server)"
  shows "sc_webrtc_server_remove_client server client_id =
     Some (if client_id \<ge> 0 \<and> client_id < client_count server
              \<and> connected (clients server ! nat client_id)
           then (server\<lparr>clients := (clients server)[nat client_id :=
                    (clients server ! nat client_id)
                      \<lparr>connected := False, peer_connection := None\<rparr>]\<rparr>,
                 [Net_Close (socket (clients server ! nat client_id))]
                 @ (case peer_connection (clients server ! nat client_id) of
                      Some pc \<Rightarrow> [Rtc_Delete_Peer_Connection pc] | None \<Rightarrow> [])
                 @ (if on_client_disconnected server
                    then [On_Client_Disconnected client_id] else []))
           else (server, []))"
proof -
  obtain m' where "sc_mutex_lock (mutex server) = Some m'" "sc_mutex_unlock m' = mutex server"
    using lock_unlock[OF assms] by blast
  then show ?thesis
    by (cases "peer_connection (clients server ! nat client_id)")
       (simp_all add: sc_webrtc_server_remove_client_def Let_def peer_connection_already_null)
qed

lemma add_client_sequence_from:
  assumes "depth (mutex server) = 0 \<or> recursive (mutex server)"
      and "client_count server \<le> SC_WEBRTC_MAX_CLIENTS"
  shows "\<exists>server'.
           add_client_sequence server socks =
             Some (server',
                   map (\<lambda>k. if client_count server + int k < SC_WEBRTC_MAX_CLIENTS
                            then client_count server + int k else - 1)
                       [0..<length socks]) \<and>
           client_count server' =
             min (client_count server + int (length socks)) SC_WEBRTC_MAX_CLIENTS \<and>
           mutex server' = mutex server"
  using assms
proof (induction socks arbitrary: server)
  case Nil
  then show ?case by simp
next
  case (Cons sock socks)
  let ?c = "client_count server"
  have "\<exists>server1 id1.
      sc_webrtc_server_add_client server sock = Some (server1, id1) \<and>
      id1 = (if ?c < SC_WEBRTC_MAX_CLIENTS then ?c else - 1) \<and>
      client_count server1 = (if ?c < SC_WEBRTC_MAX_CLIENTS then ?c + 1 else ?c) \<and>
      mutex server1 = mutex server"
    using Cons.prems(1) by (cases "?c < SC_WEBRTC_MAX_CLIENTS") (simp_all add: add_client_eq)
  then obtain server1 id1 where
    a: "sc_webrtc_server_add_client server sock = Some (server1, id1)"
    and id1: "id1 = (if ?c < SC_WEBRTC_MAX_CLIENTS then ?c else - 1)"
    and c1: "client_count server1 = (if ?c < SC_WEBRTC_MAX_CLIENTS then ?c + 1 else ?c)"
    and m1: "mutex server1 = mutex server"
    by blast
  have "depth (mutex server1) = 0 \<or> recursive (mutex server1)"
    using Cons.prems(1) m1 by simp
  moreover have "client_count server1 \<le> SC_WEBRTC_MAX_CLIENTS"
    using Cons.prems(2) c1 by simp
  ultimately obtain server' where
    s: "add_client_sequence server1 socks =
          Some (server',
                map (\<lambda>k. if client_count server1 + int k < SC_WEBRTC_MAX_CLIENTS
                         then client_count server1 + int k else - 1)
                    [0..<length socks])"
    and c': "client_count server' =
          min (client_count server1 + int (length socks)) SC_WEBRTC_MAX_CLIENTS"
    and m': "mutex server' = mutex server1"
    using Cons.IH[of server1] by blast
  have "map (\<lambda>k. if ?c + int k < SC_WEBRTC_MAX_CLIENTS then ?c + int k else - 1)
            [0..<length (sock # socks)]
        = id1 # map (\<lambda>k. if client_count server1 + int k < SC_WEBRTC_MAX_CLIENTS
                         then client_count server1 + int k else - 1)
                    [0..<length socks]"
    using Cons.prems(2) by (auto simp: map_upt_Suc id1 c1 simp del: upt_Suc)
  moreover have "client_count server' =
      min (?c + int (length (sock # socks))) SC_WEBRTC_MAX_CLIENTS"
    using Cons.prems(2) c' c1 by auto
  ultimately show ?case using a s m' m1 by simp
qed

text \<open>
  Claim C6. A successful \<open>add_client\<close> returns the count at the time of the call and
  raises the count by one. From an empty registry, registering any number of sockets
  in turn returns the ids 0, 1, \<dots>, 9 for the first ten and \<open>-1\<close> for every later
  one, and once ten are registered a further call returns \<open>-1\<close> and the server
  it returns is the server it was given.
\<close>

theorem add_client_ids:
  assumes "depth (mutex server) = 0 \<or> recursive (mutex server)"
  shows "(client_count server < SC_WEBRTC_MAX_CLIENTS \<longrightarrow>
            (\<exists>server1.
               sc_webrtc_server_add_client server client_socket
                 = Some (server1, client_count server) \<and>
               client_count server1 = client_count server + 1)) \<and>
         (client_count server = 0 \<longrightarrow>
            (\<exists>server'.
               add_client_sequence server socks =
                 Some (server', map (\<lambda>k. if k < 10 then int k else - 1) [0..<length socks]) \<and>
               client_count server' = int (min (length socks) 10) \<and>
               (10 \<le> length socks \<longrightarrow>
                  sc_webrtc_server_add_client server' client_socket = Some (server', - 1))))"
proof (intro conjI impI)
  assume "client_count server < SC_WEBRTC_MAX_CLIENTS"
  then show "\<exists>server1.
               sc_webrtc_server_add_client server client_socket
                 = Some (server1, client_count server) \<and>
               client_count server1 = client_count server + 1"
    using assms by (simp add: add_client_eq)
next
  assume empty: "client_count server = 0"
  then have "client_count server \<le> SC_WEBRTC_MAX_CLIENTS"
    by (simp add: SC_WEBRTC_MAX_CLIENTS_def)
  then obtain server' where
    s: "add_client_sequence server socks =
          Some (server',
                map (\<lambda>k. if client_count server + int k < SC_WEBRTC_MAX_CLIENTS
                         then client_count server + int k else - 1)
                    [0..<length socks])"
    and c: "client_count server' =
          min (client_count server + int (length socks)) SC_WEBRTC_MAX_CLIENTS"
    and m: "mutex server' = mutex server"
    using add_client_sequence_from[OF assms, of socks] by blast
  have ids: "add_client_sequence server socks =
      Some (server', map (\<lambda>k. if k < 10 then int k else - 1) [0..<length socks])"
    using s empty by (simp add: SC_WEBRTC_MAX_CLIENTS_def)
  have cnt: "client_count server' = int (min (length socks) 10)"
    using c empty by (simp add: SC_WEBRTC_MAX_CLIENTS_def)
  have "sc_webrtc_server_add_client server' client_socket = Some (server', - 1)"
    if "10 \<le> length socks"
  proof -
    have "client_count server' \<ge> SC_WEBRTC_MAX_CLIENTS"
      using cnt that by (simp add: SC_WEBRTC_MAX_CLIENTS_def)
    moreover have "depth (mutex server') = 0 \<or> recursive (mutex server')"
      using assms m by simp
    ultimately show ?thesis by (simp add: add_client_eq)
  qed
  then show "\<exists>server'.
               add_client_sequence server socks =
                 Some (server', map (\<lambda>k. if k < 10 then int k else - 1) [0..<length socks]) \<and>
               client_count server' = int (min (length socks) 10) \<and>
               (10 \<le> length socks \<longrightarrow>
                  sc_webrtc_server_add_client server' client_socket = Some (server', - 1))"
    using ids cnt by blast
qed

text \<open>
  A server just initialised, no client registered, and eleven connections.
\<close>

theorem add_client_ids_witness:
  "\<exists>server'.
     add_client_sequence
       \<lparr>server_socket = Socket 3, stopped = False,
        mutex = \<lparr>recursive = False, depth = 0\<rparr>,
        clients = replicate 10
          \<lparr>id_c = 0, peer_connection = None, data_channel = None, connected = False,
           socket = SC_SOCKET_NONE\<rparr>,
        client_count = 0, on_client_connected = True, on_client_disconnected = True\<rparr>
       (replicate 11 (Socket 4))
       = Some (server', [0, 1, 2, 3, 4, 5, 6, 7, 8, 9, - 1]) \<and>
     client_count server' = 10 \<and>
     sc_webrtc_server_add_client server' (Socket 5) = Some (server', - 1)"
  using add_client_ids
    [of "\<lparr>server_socket = Socket 3, stopped = False,
        mutex = \<lparr>recursive = False, depth = 0\<rparr>,
        clients = replicate 10
          \<lparr>id_c = 0, peer_connection = None, data_channel = None, connected = False,
           socket = SC_SOCKET_NONE\<rparr>,
        client_count = 0, on_client_connected = True, on_client_disconnected = True\<rparr>"
        "Socket 5" "replicate 11 (Socket 4)"]
  by (simp add: upt_rec)

text \<open>
  Claim C7. For an allocated id, \<open>remove_client\<close> leaves the client not alive; the
  disconnect callback runs once if the client was alive and the callback is set, and
  not at all otherwise; a second \<open>remove_client\<close> on the id changes nothing and emits
  nothing. On an id that is negative or not below the count the call changes nothing
  and emits nothing.
\<close>

theorem remove_client_idempotent:
  assumes "depth (mutex server) = 0 \<or> recursive (mutex server)"
      and "client_count server \<le> int (length (clients server))"
  shows "(0 \<le> client_id \<and> client_id < client_count server \<longrightarrow>
            (\<exists>server' evs.
               sc_webrtc_server_remove_client server client_id = Some (server', evs) \<and>
               \<not> connected (clients server' ! nat client_id) \<and>
               count_list evs (On_Client_Disconnected client_id) =
                 (if connected (clients server ! nat client_id) \<and> on_client_disconnected server
                  then 1 else 0) \<and>
               (\<not> connected (clients server ! nat client_id) \<longrightarrow> server' = server \<and> evs = []) \<and>
               sc_webrtc_server_remove_client server' client_id = Some (server', []))) \<and>
         (client_id < 0 \<or> client_count server \<le> client_id \<longrightarrow>
            sc_webrtc_server_remove_client server client_id = Some (server, []))"
proof (intro conjI impI)
  assume "client_id < 0 \<or> client_count server \<le> client_id"
  then show "sc_webrtc_server_remove_client server client_id = Some (server, [])"
    using assms(1) by (auto simp: remove_client_eq)
next
  assume range: "0 \<le> client_id \<and> client_id < client_count server"
  then have i: "nat client_id < length (clients server)" using assms(2) by auto
  show "\<exists>server' evs.
               sc_webrtc_server_remove_client server client_id = Some (server', evs) \<and>
               \<not> connected (clients server' ! nat client_id) \<and>
               count_list evs (On_Client_Disconnected client_id) =
                 (if connected (clients server ! nat client_id) \<and> on_client_disconnected server
                  then 1 else 0) \<and>
               (\<not> connected (clients server ! nat client_id) \<longrightarrow> server' = server \<and> evs = []) \<and>
               sc_webrtc_server_remove_client server' client_id = Some (server', [])"
  proof (cases "connected (clients server ! nat client_id)")
    case False
    then have "sc_webrtc_server_remove_client server client_id = Some (server, [])"
      using assms(1) by (simp add: remove_client_eq)
    then show ?thesis using False by simp
  next
    case True
    let ?server' = "server\<lparr>clients := (clients server)[nat client_id :=
                    (clients server ! nat client_id)
                      \<lparr>connected := False, peer_connection := None\<rparr>]\<rparr>"
    let ?evs = "[Net_Close (socket (clients server ! nat client_id))]
                 @ (case peer_connection (clients server ! nat client_id) of
                      Some pc \<Rightarrow> [Rtc_Delete_Peer_Connection pc] | None \<Rightarrow> [])
                 @ (if on_client_disconnected server
                    then [On_Client_Disconnected client_id] else [])"
    have r: "sc_webrtc_server_remove_client server client_id = Some (?server', ?evs)"
      using assms(1) range True by (simp add: remove_client_eq)
    have dead: "\<not> connected (clients ?server' ! nat client_id)" using i by simp
    have "depth (mutex ?server') = 0 \<or> recursive (mutex ?server')" using assms(1) by simp
    then have again: "sc_webrtc_server_remove_client ?server' client_id = Some (?server', [])"
      using dead by (simp only: remove_client_eq) simp
    have "count_list ?evs (On_Client_Disconnected client_id) =
            (if on_client_disconnected server then 1 else 0)"
      by (cases "peer_connection (clients server ! nat client_id)") simp_all
    then show ?thesis using r dead again True by simp
  qed
qed

text \<open>
  Two clients registered and alive, each with a peer connection; client 1 is removed
  twice.
\<close>

theorem remove_client_idempotent_witness:
  "\<exists>server' evs.
     sc_webrtc_server_remove_client
       \<lparr>server_socket = Socket 3, stopped = False,
        mutex = \<lparr>recursive = False, depth = 0\<rparr>,
        clients = replicate 10
          \<lparr>id_c = 0, peer_connection = Some 77, data_channel = None, connected = True,
           socket = Socket 9\<rparr>,
        client_count = 2, on_client_connected = True, on_client_disconnected = True\<rparr>
       1 = Some (server', evs) \<and>
     \<not> connected (clients server' ! 1) \<and>
     count_list evs (On_Client_Disconnected 1) = 1 \<and>
     sc_webrtc_server_remove_client server' 1 = Some (server', [])"
  using remove_client_idempotent
    [of "\<lparr>server_socket = Socket 3, stopped = False,
        mutex = \<lparr>recursive = False, depth = 0\<rparr>,
        clients = replicate 10
          \<lparr>id_c = 0, peer_connection = Some 77, data_channel = None, connected = True,
           socket = Socket 9\<rparr>,
        client_count = 2, on_client_connected = True, on_client_disconnected = True\<rparr>" 1]
  by simp

section \<open>The upgrade negotiator\<close>

lemma handle_websocket_eq:
  assumes "depth (mutex server) = 0 \<or> recursive (mutex server)"
      and "0 \<le> client_count server"
  shows "sc_webrtc_server_handle_websocket server client_socket sent =
     Some (if sent \<le> 0 \<or> client_count server \<ge> SC_WEBRTC_MAX_CLIENTS
           then (False, server, [Net_Send client_socket websocket_response])
           else (True,
                 server
                  \<lparr>clients := (clients server)[nat (client_count server) :=
                     (clients server ! nat (client_count server))
                       \<lparr>id_c := client_count server,
                        socket := client_socket,
                        connected := True,
                        peer_connection := None,
                        data_channel := None\<rparr>],
                   client_count := client_count server + 1\<rparr>,
                 Net_Send client_socket websocket_response #
                 (if on_client_connected server
                  then [On_Client_Connected (client_count server)] else [])))"
  using assms(2)
  by (simp add: sc_webrtc_server_handle_websocket_def add_client_eq[OF assms(1)] Let_def)

text \<open>
  Claim C10. With the registry at capacity, an upgrade request whose response was sent
  (\<open>net_send_all\<close> returned a positive count) ends thus: the whole
  \<open>101 Switching Protocols\<close> response has gone to the peer, the negotiator returns
  \<open>false\<close>, the server is unchanged (no client registered) and no callback has run.
  The same holds for \<open>handle_http\<close> on a request that contains the upgrade header.
\<close>

theorem upgrade_when_full:
  assumes "depth (mutex server) = 0 \<or> recursive (mutex server)"
      and "SC_WEBRTC_MAX_CLIENTS \<le> client_count server"
      and "0 < sent"
  shows "sc_webrtc_server_handle_websocket server client_socket sent
           = Some (False, server, [Net_Send client_socket websocket_response]) \<and>
         (0 < received \<and>
          strstr (c_str (take (nat received) buffer @ [CHR 0x00])) ''Upgrade: websocket'' \<noteq> None \<longrightarrow>
            sc_webrtc_server_handle_http HTML_CLIENT server client_socket received buffer sent
              = Some (False, server, [Net_Send client_socket websocket_response])) \<and>
         take 32 websocket_response = ''HTTP/1.1 101 Switching Protocols''"
proof -
  have "0 \<le> client_count server" using assms(2) by (simp add: SC_WEBRTC_MAX_CLIENTS_def)
  then have "sc_webrtc_server_handle_websocket server client_socket sent
           = Some (False, server, [Net_Send client_socket websocket_response])"
    using assms by (simp add: handle_websocket_eq)
  moreover have "take 32 websocket_response = ''HTTP/1.1 101 Switching Protocols''"
    by (simp add: websocket_response_def)
  ultimately show ?thesis
    by (simp add: sc_webrtc_server_handle_http_def Let_def)
qed

text \<open>
  Ten clients registered; an eleventh peer asks for an upgrade.
\<close>

theorem upgrade_when_full_witness:
  "sc_webrtc_server_handle_http ''<html></html>''
     \<lparr>server_socket = Socket 3, stopped = False,
      mutex = \<lparr>recursive = False, depth = 0\<rparr>,
      clients = replicate 10
        \<lparr>id_c = 0, peer_connection = None, data_channel = None, connected = True,
         socket = Socket 9\<rparr>,
      client_count = 10, on_client_connected = True, on_client_disconnected = True\<rparr>
     (Socket 20) 18 ''Upgrade: websocket'' 129
   = Some (False,
       \<lparr>server_socket = Socket 3, stopped = False,
        mutex = \<lparr>recursive = False, depth = 0\<rparr>,
        clients = replicate 10
          \<lparr>id_c = 0, peer_connection = None, data_channel = None, connected = True,
           socket = Socket 9\<rparr>,
        client_count = 10, on_client_connected = True, on_client_disconnected = True\<rparr>,
       [Net_Send (Socket 20) websocket_response])"
  using upgrade_when_full
    [where server = "\<lparr>server_socket = Socket 3, stopped = False,
      mutex = \<lparr>recursive = False, depth = 0\<rparr>,
      clients = replicate 10
        \<lparr>id_c = 0, peer_connection = None, data_channel = None, connected = True,
         socket = Socket 9\<rparr>,
      client_count = 10, on_client_connected = True, on_client_disconnected = True\<rparr>"
      and sent = 129 and received = 18 and buffer = "''Upgrade: websocket''"
      and HTML_CLIENT = "''<html></html>''" and client_socket = "Socket 20"]
  by (simp add: SC_WEBRTC_MAX_CLIENTS_def c_str_def)

lemma handle_http_eq:
  assumes "depth (mutex server) = 0 \<or> recursive (mutex server)"
      and "0 \<le> client_count server"
  shows "sc_webrtc_server_handle_http HTML_CLIENT server client_socket received buffer sent =
     Some (if received \<le> 0 then (False, server, [])
           else if strstr (c_str (take (nat received) buffer @ [CHR 0x00])) ''Upgrade: websocket'' \<noteq> None
           then
             (if sent \<le> 0 \<or> client_count server \<ge> SC_WEBRTC_MAX_CLIENTS
              then (False, server, [Net_Send client_socket websocket_response])
              else (True,
                 server
                  \<lparr>clients := (clients server)[nat (client_count server) :=
                     (clients server ! nat (client_count server))
                       \<lparr>id_c := client_count server,
                        socket := client_socket,
                        connected := True,
                        peer_connection := None,
                        data_channel := None\<rparr>],
                   client_count := client_count server + 1\<rparr>,
                 Net_Send client_socket websocket_response #
                 (if on_client_connected server
                  then [On_Client_Connected (client_count server)] else [])))
           else (sent > 0, server, [Net_Send client_socket (http_response HTML_CLIENT)]))"
  by (simp add: sc_webrtc_server_handle_http_def handle_websocket_eq[OF assms] Let_def)

text \<open>
  Who closes the client socket. The negotiator never does: no \<open>net_close\<close> is among
  the events of \<open>handle_http\<close>. When it returns \<open>false\<close> (nothing received, a
  failed send, the registry full) the accept loop closes the socket, as the last event
  of the turn. When it returns \<open>true\<close> the turn closes nothing; on an upgrade request
  the socket is then that of the client registered under the id that was the count,
  which is alive.
\<close>

lemma accept_turn_socket:
  assumes "depth (mutex server) = 0 \<or> recursive (mutex server)"
      and "0 \<le> client_count server"
      and "int (length (clients server)) = SC_WEBRTC_MAX_CLIENTS"
      and "client_socket \<noteq> SC_SOCKET_NONE"
  shows "\<exists>handled server' evs.
           sc_webrtc_server_handle_http HTML_CLIENT server client_socket received buffer sent
             = Some (handled, server', evs) \<and>
           (\<forall>s. Net_Close s \<notin> set evs) \<and>
           (\<not> handled \<longrightarrow>
              run_webrtc_server_turn HTML_CLIENT server client_socket received buffer sent
                = Some (server', evs @ [Net_Close client_socket])) \<and>
           (handled \<longrightarrow>
              run_webrtc_server_turn HTML_CLIENT server client_socket received buffer sent
                = Some (server', evs)) \<and>
           (handled \<and> 0 < received \<and>
            strstr (c_str (take (nat received) buffer @ [CHR 0x00])) ''Upgrade: websocket'' \<noteq> None \<longrightarrow>
              (\<exists>client.
                 sc_webrtc_server_get_client server' (client_count server) = Some client \<and>
                 socket client = client_socket \<and> connected client))"
proof -
  note h = handle_http_eq[OF assms(1,2), of HTML_CLIENT client_socket received buffer sent]
  consider (norecv) "received \<le> 0"
    | (page) "0 < received"
        "strstr (c_str (take (nat received) buffer @ [CHR 0x00])) ''Upgrade: websocket'' = None"
    | (refused) "0 < received"
        "strstr (c_str (take (nat received) buffer @ [CHR 0x00])) ''Upgrade: websocket'' \<noteq> None"
        "sent \<le> 0 \<or> client_count server \<ge> SC_WEBRTC_MAX_CLIENTS"
    | (upgraded) "0 < received"
        "strstr (c_str (take (nat received) buffer @ [CHR 0x00])) ''Upgrade: websocket'' \<noteq> None"
        "0 < sent" "client_count server < SC_WEBRTC_MAX_CLIENTS"
    by linarith
  then show ?thesis
  proof cases
    case norecv
    then show ?thesis using h assms(4) by (auto simp: run_webrtc_server_turn_def)
  next
    case page
    then show ?thesis using h assms(4) by (auto simp: run_webrtc_server_turn_def)
  next
    case refused
    then show ?thesis using h assms(4) by (auto simp: run_webrtc_server_turn_def)
  next
    case upgraded
    have "nat (client_count server) < length (clients server)"
      using assms(2,3) upgraded(4) by linarith
    then show ?thesis
      using h assms(2,4) upgraded
      by (auto simp: run_webrtc_server_turn_def sc_webrtc_server_get_client_def)
  qed
qed

text \<open>
  Claim C5. The claim is right and the source misses it where a page is served. The
  request is no upgrade and \<open>net_send_all\<close> succeeds, so \<open>handle_http\<close> returns
  \<open>true\<close>; the accept loop closes the socket only after \<open>false\<close>, the negotiator
  closes nothing, and the socket is stored nowhere. In the whole turn the only event
  is the response: the socket is never closed, whereas on every failing path
  (\<open>accept_turn_socket\<close>) it is.
\<close>

theorem page_served_socket_not_closed:
  "sc_webrtc_server_handle_http ''<html></html>''
     \<lparr>server_socket = Socket 3, stopped = False,
        mutex = \<lparr>recursive = False, depth = 0\<rparr>,
        clients = replicate 10
          \<lparr>id_c = 0, peer_connection = None, data_channel = None, connected = False,
           socket = SC_SOCKET_NONE\<rparr>,
        client_count = 0, on_client_connected = True, on_client_disconnected = True\<rparr>
     (Socket 20) 18 (''GET / HTTP/1.1'' @ CRLF @ CRLF) 200
   = Some (True,
       \<lparr>server_socket = Socket 3, stopped = False,
        mutex = \<lparr>recursive = False, depth = 0\<rparr>,
        clients = replicate 10
          \<lparr>id_c = 0, peer_connection = None, data_channel = None, connected = False,
           socket = SC_SOCKET_NONE\<rparr>,
        client_count = 0, on_client_connected = True, on_client_disconnected = True\<rparr>,
       [Net_Send (Socket 20) (http_response ''<html></html>'')]) \<and>
   run_webrtc_server_turn ''<html></html>''
     \<lparr>server_socket = Socket 3, stopped = False,
        mutex = \<lparr>recursive = False, depth = 0\<rparr>,
        clients = replicate 10
          \<lparr>id_c = 0, peer_connection = None, data_channel = None, connected = False,
           socket = SC_SOCKET_NONE\<rparr>,
        client_count = 0, on_client_connected = True, on_client_disconnected = True\<rparr>
     (Socket 20) 18 (''GET / HTTP/1.1'' @ CRLF @ CRLF) 200
   = Some (\<lparr>server_socket = Socket 3, stopped = False,
        mutex = \<lparr>recursive = False, depth = 0\<rparr>,
        clients = replicate 10
          \<lparr>id_c = 0, peer_connection = None, data_channel = None, connected = False,
           socket = SC_SOCKET_NONE\<rparr>,
        client_count = 0, on_client_connected = True, on_client_disconnected = True\<rparr>,
       [Net_Send (Socket 20) (http_response ''<html></html>'')]) \<and>
   Net_Close (Socket 20) \<notin> set [Net_Send (Socket 20) (http_response ''<html></html>'')]"
  by (simp add: run_webrtc_server_turn_def handle_http_eq CRLF_def c_str_def)

text \<open>
  Claim C1, as the source has it. For every request that contains the upgrade header,
  whatever else it contains, the first thing the negotiator sends is one fixed
  response, whose \<open>Sec-WebSocket-Accept\<close> token is the literal
  \<open>s3pPLMBiTxaQ9kYGzzhZRbK+xOo=\<close>; the request's key header is not read.
\<close>

theorem handshake_response_fixed:
  assumes "depth (mutex server) = 0 \<or> recursive (mutex server)"
      and "0 \<le> client_count server"
      and "0 < received"
      and "strstr (c_str (take (nat received) buffer @ [CHR 0x00])) ''Upgrade: websocket'' \<noteq> None"
  shows "\<exists>handled server' evs.
           sc_webrtc_server_handle_http HTML_CLIENT server client_socket received buffer sent
             = Some (handled, server',
                 Net_Send client_socket
                   (''HTTP/1.1 101 Switching Protocols'' @ CRLF @
                    ''Upgrade: websocket'' @ CRLF @
                    ''Connection: Upgrade'' @ CRLF @
                    ''Sec-WebSocket-Accept: s3pPLMBiTxaQ9kYGzzhZRbK+xOo='' @ CRLF @
                    CRLF) # evs)"
  using assms(3,4)
  by (auto simp: handle_http_eq[OF assms(1,2)] websocket_response_def)

text \<open>
  An upgrade request that carries the key \<open>x3JJHMbDL1EzLkh9GBhXDw==\<close>.
\<close>

theorem handshake_response_fixed_witness:
  "\<exists>handled server' evs.
     sc_webrtc_server_handle_http ''<html></html>''
       \<lparr>server_socket = Socket 3, stopped = False,
        mutex = \<lparr>recursive = False, depth = 0\<rparr>,
        clients = replicate 10
          \<lparr>id_c = 0, peer_connection = None, data_channel = None, connected = False,
           socket = SC_SOCKET_NONE\<rparr>,
        client_count = 0, on_client_connected = True, on_client_disconnected = True\<rparr>
       (Socket 20) 85
       (''GET /ws HTTP/1.1'' @ CRLF @ ''Upgrade: websocket'' @ CRLF @
        ''Sec-WebSocket-Key: x3JJHMbDL1EzLkh9GBhXDw=='' @ CRLF @ CRLF)
       129
     = Some (handled, server',
         Net_Send (Socket 20)
           (''HTTP/1.1 101 Switching Protocols'' @ CRLF @
            ''Upgrade: websocket'' @ CRLF @
            ''Connection: Upgrade'' @ CRLF @
            ''Sec-WebSocket-Accept: s3pPLMBiTxaQ9kYGzzhZRbK+xOo='' @ CRLF @
            CRLF) # evs)"
  using handshake_response_fixed
    [where server = "\<lparr>server_socket = Socket 3, stopped = False,
        mutex = \<lparr>recursive = False, depth = 0\<rparr>,
        clients = replicate 10
          \<lparr>id_c = 0, peer_connection = None, data_channel = None, connected = False,
           socket = SC_SOCKET_NONE\<rparr>,
        client_count = 0, on_client_connected = True, on_client_disconnected = True\<rparr>"
       and client_socket = "Socket 20" and received = 85
       and buffer = "''GET /ws HTTP/1.1'' @ CRLF @ ''Upgrade: websocket'' @ CRLF @
        ''Sec-WebSocket-Key: x3JJHMbDL1EzLkh9GBhXDw=='' @ CRLF @ CRLF"
       and sent = 129 and HTML_CLIENT = "''<html></html>''"]
  by (simp add: CRLF_def c_str_def)

section \<open>The accept token of one key, computed\<close>

lemma replicate_59: "replicate 59 (0 :: byte) =
     [0, 0, 0, 0, 0, 0, 0, 0, 0, 0, 0, 0, 0, 0, 0, 0, 0, 0, 0, 0, 0, 0, 0, 0, 0, 0, 0, 0, 0,
     0, 0, 0, 0, 0, 0, 0, 0, 0, 0, 0, 0, 0, 0, 0, 0, 0, 0, 0, 0, 0, 0, 0, 0, 0, 0, 0, 0, 0,
     0]"
  by (simp add: numeral_eq_Suc)

lemma accept_padded:
  "sha1_pad (map of_char (''x3JJHMbDL1EzLkh9GBhXDw=='' @ websocket_guid)) =
     [120, 51, 74, 74, 72, 77, 98, 68, 76, 49, 69, 122, 76, 107, 104, 57, 71, 66, 104, 88,
     68, 119, 61, 61, 50, 53, 56, 69, 65, 70, 65, 53, 45, 69, 57, 49, 52, 45, 52, 55, 68,
     65, 45, 57, 53, 67, 65, 45, 67, 53, 65, 66, 48, 68, 67, 56, 53, 66, 49, 49, 128, 0, 0,
     0, 0, 0, 0, 0, 0, 0, 0, 0, 0, 0, 0, 0, 0, 0, 0, 0, 0, 0, 0, 0, 0, 0, 0, 0, 0, 0, 0, 0,
     0, 0, 0, 0, 0, 0, 0, 0, 0, 0, 0, 0, 0, 0, 0, 0, 0, 0, 0, 0, 0, 0, 0, 0, 0, 0, 0, 0, 0,
     0, 0, 0, 0, 0, 1, 224]"
  by (simp add: sha1_pad_def websocket_guid_def replicate_59 upt_rec)

lemma accept_schedule_1:
  "sha1_schedule
     [120, 51, 74, 74, 72, 77, 98, 68, 76, 49, 69, 122, 76, 107, 104, 57, 71, 66, 104, 88,
     68, 119, 61, 61, 50, 53, 56, 69, 65, 70, 65, 53, 45, 69, 57, 49, 52, 45, 52, 55, 68,
     65, 45, 57, 53, 67, 65, 45, 67, 53, 65, 66, 48, 68, 67, 56, 53, 66, 49, 49, 128, 0, 0,
     0] =
     [0x78334a4a, 0x484d6244, 0x4c31457a, 0x4c6b6839, 0x47426858, 0x44773d3d, 0x32353845,
     0x41464135, 0x2d453931, 0x342d3437, 0x44412d39, 0x3543412d, 0x43354142, 0x30444338,
     0x35423131, 0x80000000, 0x5206ea72, 0xa921ef6, 0x9e640037, 0xdeb3fcb6, 0x79a01f52,
     0x56227e0f, 0xe90399e7, 0x1996d4a1, 0xda4100ea, 0xc5ffe417, 0x10d71db, 0x3ebfc92,
     0x9451166d, 0xced699d9, 0x1b597c6d, 0xeabb874, 0xb1eae6ed, 0x150ef474, 0xd0c5ad95,
     0x7521318c, 0x23f8c958, 0xa34f3dc4, 0xba75a9d8, 0xe2748335, 0x93d35431, 0xd2de8a52,
     0x4fda922d, 0x579e01ec, 0xfc5c5214, 0x59d11c88, 0x8eb06568, 0xb1b3a42, 0x565a0783,
     0x78825584, 0x6ff99945, 0xaf54144f, 0x3aa6ce20, 0xee267678, 0x1085199c, 0x22ffa0a,
     0xc8eb6fce, 0xda8f8f4d, 0xbca146ed, 0xd3e0cdca, 0x258aec23, 0x9a2cbe, 0x371f6d7a,
     0xa878f3de, 0xe3a5bb6d, 0x748d47f8, 0x830dc4ac, 0xe26e2920, 0xf648f8ce, 0xdf3cc8c0,
     0x1a3e6410, 0xd20fcaf, 0x91a6b51c, 0xcfb8c2de, 0x2e0d259a, 0x4164fa91, 0x56cb7692,
     0xb3a66474, 0x1fc0912d, 0xe3c7c37]"
  by (simp add: sha1_schedule_def sha1_extend_def be32_def rotl32_def upt_rec)

lemma accept_rounds_1_1:
  "fold (sha1_round
     [0x78334a4a, 0x484d6244, 0x4c31457a, 0x4c6b6839, 0x47426858, 0x44773d3d, 0x32353845,
     0x41464135, 0x2d453931, 0x342d3437, 0x44412d39, 0x3543412d, 0x43354142, 0x30444338,
     0x35423131, 0x80000000, 0x5206ea72, 0xa921ef6, 0x9e640037, 0xdeb3fcb6, 0x79a01f52,
     0x56227e0f, 0xe90399e7, 0x1996d4a1, 0xda4100ea, 0xc5ffe417, 0x10d71db, 0x3ebfc92,
     0x9451166d, 0xced699d9, 0x1b597c6d, 0xeabb874, 0xb1eae6ed, 0x150ef474, 0xd0c5ad95,
     0x7521318c, 0x23f8c958, 0xa34f3dc4, 0xba75a9d8, 0xe2748335, 0x93d35431, 0xd2de8a52,
     0x4fda922d, 0x579e01ec, 0xfc5c5214, 0x59d11c88, 0x8eb06568, 0xb1b3a42, 0x565a0783,
     0x78825584, 0x6ff99945, 0xaf54144f, 0x3aa6ce20, 0xee267678, 0x1085199c, 0x22ffa0a,
     0xc8eb6fce, 0xda8f8f4d, 0xbca146ed, 0xd3e0cdca, 0x258aec23, 0x9a2cbe, 0x371f6d7a,
     0xa878f3de, 0xe3a5bb6d, 0x748d47f8, 0x830dc4ac, 0xe26e2920, 0xf648f8ce, 0xdf3cc8c0,
     0x1a3e6410, 0xd20fcaf, 0x91a6b51c, 0xcfb8c2de, 0x2e0d259a, 0x4164fa91, 0x56cb7692,
     0xb3a66474, 0x1fc0912d, 0xe3c7c37])
     [0..<20] (0x67452301, 0xefcdab89, 0x98badcfe, 0x10325476, 0xc3d2e1f0) =
     (0x32959966, 0x605dd1c6, 0x2160eecc, 0xa5e831ab, 0xea61725a)"
  by (simp add: sha1_round_def rotl32_def upt_rec Let_def)

lemma accept_rounds_1_2:
  "fold (sha1_round
     [0x78334a4a, 0x484d6244, 0x4c31457a, 0x4c6b6839, 0x47426858, 0x44773d3d, 0x32353845,
     0x41464135, 0x2d453931, 0x342d3437, 0x44412d39, 0x3543412d, 0x43354142, 0x30444338,
     0x35423131, 0x80000000, 0x5206ea72, 0xa921ef6, 0x9e640037, 0xdeb3fcb6, 0x79a01f52,
     0x56227e0f, 0xe90399e7, 0x1996d4a1, 0xda4100ea, 0xc5ffe417, 0x10d71db, 0x3ebfc92,
     0x9451166d, 0xced699d9, 0x1b597c6d, 0xeabb874, 0xb1eae6ed, 0x150ef474, 0xd0c5ad95,
     0x7521318c, 0x23f8c958, 0xa34f3dc4, 0xba75a9d8, 0xe2748335, 0x93d35431, 0xd2de8a52,
     0x4fda922d, 0x579e01ec, 0xfc5c5214, 0x59d11c88, 0x8eb06568, 0xb1b3a42, 0x565a0783,
     0x78825584, 0x6ff99945, 0xaf54144f, 0x3aa6ce20, 0xee267678, 0x1085199c, 0x22ffa0a,
     0xc8eb6fce, 0xda8f8f4d, 0xbca146ed, 0xd3e0cdca, 0x258aec23, 0x9a2cbe, 0x371f6d7a,
     0xa878f3de, 0xe3a5bb6d, 0x748d47f8, 0x830dc4ac, 0xe26e2920, 0xf648f8ce, 0xdf3cc8c0,
     0x1a3e6410, 0xd20fcaf, 0x91a6b51c, 0xcfb8c2de, 0x2e0d259a, 0x4164fa91, 0x56cb7692,
     0xb3a66474, 0x1fc0912d, 0xe3c7c37])
     [20..<40] (0x32959966, 0x605dd1c6, 0x2160eecc, 0xa5e831ab, 0xea61725a) =
     (0x11bab15d, 0x605f16e5, 0x1ab60de, 0x2228f1f6, 0x1168a73)"
  by (simp add: sha1_round_def rotl32_def upt_rec Let_def)

lemma accept_rounds_1_3:
  "fold (sha1_round
     [0x78334a4a, 0x484d6244, 0x4c31457a, 0x4c6b6839, 0x47426858, 0x44773d3d, 0x32353845,
     0x41464135, 0x2d453931, 0x342d3437, 0x44412d39, 0x3543412d, 0x43354142, 0x30444338,
     0x35423131, 0x80000000, 0x5206ea72, 0xa921ef6, 0x9e640037, 0xdeb3fcb6, 0x79a01f52,
     0x56227e0f, 0xe90399e7, 0x1996d4a1, 0xda4100ea, 0xc5ffe417, 0x10d71db, 0x3ebfc92,
     0x9451166d, 0xced699d9, 0x1b597c6d, 0xeabb874, 0xb1eae6ed, 0x150ef474, 0xd0c5ad95,
     0x7521318c, 0x23f8c958, 0xa34f3dc4, 0xba75a9d8, 0xe2748335, 0x93d35431, 0xd2de8a52,
     0x4fda922d, 0x579e01ec, 0xfc5c5214, 0x59d11c88, 0x8eb06568, 0xb1b3a42, 0x565a0783,
     0x78825584, 0x6ff99945, 0xaf54144f, 0x3aa6ce20, 0xee267678, 0x1085199c, 0x22ffa0a,
     0xc8eb6fce, 0xda8f8f4d, 0xbca146ed, 0xd3e0cdca, 0x258aec23, 0x9a2cbe, 0x371f6d7a,
     0xa878f3de, 0xe3a5bb6d, 0x748d47f8, 0x830dc4ac, 0xe26e2920, 0xf648f8ce, 0xdf3cc8c0,
     0x1a3e6410, 0xd20fcaf, 0x91a6b51c, 0xcfb8c2de, 0x2e0d259a, 0x4164fa91, 0x56cb7692,
     0xb3a66474, 0x1fc0912d, 0xe3c7c37])
     [40..<60] (0x11bab15d, 0x605f16e5, 0x1ab60de, 0x2228f1f6, 0x1168a73) =
     (0x361daa2e, 0xab3c6b, 0xf3d25e88, 0x97e4b7ba, 0x7dda2b0c)"
  by (simp add: sha1_round_def rotl32_def upt_rec Let_def)

lemma accept_rounds_1_4:
  "fold (sha1_round
     [0x78334a4a, 0x484d6244, 0x4c31457a, 0x4c6b6839, 0x47426858, 0x44773d3d, 0x32353845,
     0x41464135, 0x2d453931, 0x342d3437, 0x44412d39, 0x3543412d, 0x43354142, 0x30444338,
     0x35423131, 0x80000000, 0x5206ea72, 0xa921ef6, 0x9e640037, 0xdeb3fcb6, 0x79a01f52,
     0x56227e0f, 0xe90399e7, 0x1996d4a1, 0xda4100ea, 0xc5ffe417, 0x10d71db, 0x3ebfc92,
     0x9451166d, 0xced699d9, 0x1b597c6d, 0xeabb874, 0xb1eae6ed, 0x150ef474, 0xd0c5ad95,
     0x7521318c, 0x23f8c958, 0xa34f3dc4, 0xba75a9d8, 0xe2748335, 0x93d35431, 0xd2de8a52,
     0x4fda922d, 0x579e01ec, 0xfc5c5214, 0x59d11c88, 0x8eb06568, 0xb1b3a42, 0x565a0783,
     0x78825584, 0x6ff99945, 0xaf54144f, 0x3aa6ce20, 0xee267678, 0x1085199c, 0x22ffa0a,
     0xc8eb6fce, 0xda8f8f4d, 0xbca146ed, 0xd3e0cdca, 0x258aec23, 0x9a2cbe, 0x371f6d7a,
     0xa878f3de, 0xe3a5bb6d, 0x748d47f8, 0x830dc4ac, 0xe26e2920, 0xf648f8ce, 0xdf3cc8c0,
     0x1a3e6410, 0xd20fcaf, 0x91a6b51c, 0xcfb8c2de, 0x2e0d259a, 0x4164fa91, 0x56cb7692,
     0xb3a66474, 0x1fc0912d, 0xe3c7c37])
     [60..<80] (0x361daa2e, 0xab3c6b, 0xf3d25e88, 0x97e4b7ba, 0x7dda2b0c) =
     (0x85f94e88, 0x943bfce6, 0x73a8899c, 0xe3515466, 0x304b576e)"
  by (simp add: sha1_round_def rotl32_def upt_rec Let_def)

lemma accept_block_1:
  "sha1_block (0x67452301, 0xefcdab89, 0x98badcfe, 0x10325476, 0xc3d2e1f0)
     [120, 51, 74, 74, 72, 77, 98, 68, 76, 49, 69, 122, 76, 107, 104, 57, 71, 66, 104, 88,
     68, 119, 61, 61, 50, 53, 56, 69, 65, 70, 65, 53, 45, 69, 57, 49, 52, 45, 52, 55, 68,
     65, 45, 57, 53, 67, 65, 45, 67, 53, 65, 66, 48, 68, 67, 56, 53, 66, 49, 49, 128, 0, 0,
     0] =
     (0xed3e7189, 0x8409a86f, 0xc63669a, 0xf383a8dc, 0xf41e395e)"
proof -
  have "[0..<80] = [0..<20] @ [20..<40] @ [40..<60] @ [60..<80]"
    by (simp add: upt_rec)
  then show ?thesis
    by (simp only: sha1_block_def accept_schedule_1 fold_append comp_apply
          accept_rounds_1_1 accept_rounds_1_2 accept_rounds_1_3 accept_rounds_1_4)
       simp
qed

lemma accept_schedule_2:
  "sha1_schedule
     [0, 0, 0, 0, 0, 0, 0, 0, 0, 0, 0, 0, 0, 0, 0, 0, 0, 0, 0, 0, 0, 0, 0, 0, 0, 0, 0, 0, 0,
     0, 0, 0, 0, 0, 0, 0, 0, 0, 0, 0, 0, 0, 0, 0, 0, 0, 0, 0, 0, 0, 0, 0, 0, 0, 0, 0, 0, 0,
     0, 0, 0, 0, 1, 224] =
     [0x0, 0x0, 0x0, 0x0, 0x0, 0x0, 0x0, 0x0, 0x0, 0x0, 0x0, 0x0, 0x0, 0x0, 0x0, 0x1e0, 0x0,
     0x0, 0x3c0, 0x0, 0x0, 0x780, 0x0, 0x3c0, 0xf00, 0x0, 0x0, 0x1e00, 0x0, 0xcc0, 0x3c00,
     0x440, 0x0, 0x7800, 0xf00, 0x3300, 0xf000, 0xf00, 0x0, 0x1ef00, 0x0, 0xcc00, 0x3c000,
     0x4380, 0x0, 0x78f00, 0xff00, 0x32680, 0xf0000, 0xf000, 0x3300, 0x1eff00, 0x0,
     0xcb800, 0x3c0000, 0x40b00, 0xf000, 0x78ff00, 0xff000, 0x338700, 0xf00000, 0xfc300,
     0xf000, 0x1efbb00, 0x0, 0xcc0000, 0x3c0f000, 0x438000, 0x0, 0x78f0000, 0xff0000,
     0x3269e00, 0xf000000, 0xf0f000, 0x333c00, 0x1eff8800, 0x0, 0xcb88800, 0x3c00f000,
     0x40a4a00]"
  by (simp add: sha1_schedule_def sha1_extend_def be32_def rotl32_def upt_rec)

lemma accept_rounds_2_1:
  "fold (sha1_round
     [0x0, 0x0, 0x0, 0x0, 0x0, 0x0, 0x0, 0x0, 0x0, 0x0, 0x0, 0x0, 0x0, 0x0, 0x0, 0x1e0, 0x0,
     0x0, 0x3c0, 0x0, 0x0, 0x780, 0x0, 0x3c0, 0xf00, 0x0, 0x0, 0x1e00, 0x0, 0xcc0, 0x3c00,
     0x440, 0x0, 0x7800, 0xf00, 0x3300, 0xf000, 0xf00, 0x0, 0x1ef00, 0x0, 0xcc00, 0x3c000,
     0x4380, 0x0, 0x78f00, 0xff00, 0x32680, 0xf0000, 0xf000, 0x3300, 0x1eff00, 0x0,
     0xcb800, 0x3c0000, 0x40b00, 0xf000, 0x78ff00, 0xff000, 0x338700, 0xf00000, 0xfc300,
     0xf000, 0x1efbb00, 0x0, 0xcc0000, 0x3c0f000, 0x438000, 0x0, 0x78f0000, 0xff0000,
     0x3269e00, 0xf000000, 0xf0f000, 0x333c00, 0x1eff8800, 0x0, 0xcb88800, 0x3c00f000,
     0x40a4a00])
     [0..<20] (0xed3e7189, 0x8409a86f, 0xc63669a, 0xf383a8dc, 0xf41e395e) =
     (0xe8a914e, 0x96ae8564, 0x1161afa3, 0x6cf634ab, 0xdb960bbe)"
  by (simp add: sha1_round_def rotl32_def upt_rec Let_def)

lemma accept_rounds_2_2:
  "fold (sha1_round
     [0x0, 0x0, 0x0, 0x0, 0x0, 0x0, 0x0, 0x0, 0x0, 0x0, 0x0, 0x0, 0x0, 0x0, 0x0, 0x1e0, 0x0,
     0x0, 0x3c0, 0x0, 0x0, 0x780, 0x0, 0x3c0, 0xf00, 0x0, 0x0, 0x1e00, 0x0, 0xcc0, 0x3c00,
     0x440, 0x0, 0x7800, 0xf00, 0x3300, 0xf000, 0xf00, 0x0, 0x1ef00, 0x0, 0xcc00, 0x3c000,
     0x4380, 0x0, 0x78f00, 0xff00, 0x32680, 0xf0000, 0xf000, 0x3300, 0x1eff00, 0x0,
     0xcb800, 0x3c0000, 0x40b00, 0xf000, 0x78ff00, 0xff000, 0x338700, 0xf00000, 0xfc300,
     0xf000, 0x1efbb00, 0x0, 0xcc0000, 0x3c0f000, 0x438000, 0x0, 0x78f0000, 0xff0000,
     0x3269e00, 0xf000000, 0xf0f000, 0x333c00, 0x1eff8800, 0x0, 0xcb88800, 0x3c00f000,
     0x40a4a00])
     [20..<40] (0xe8a914e, 0x96ae8564, 0x1161afa3, 0x6cf634ab, 0xdb960bbe) =
     (0xdbe88398, 0x745be183, 0xdb3dba40, 0x3d669479, 0x75a79a25)"
  by (simp add: sha1_round_def rotl32_def upt_rec Let_def)

lemma accept_rounds_2_3:
  "fold (sha1_round
     [0x0, 0x0, 0x0, 0x0, 0x0, 0x0, 0x0, 0x0, 0x0, 0x0, 0x0, 0x0, 0x0, 0x0, 0x0, 0x1e0, 0x0,
     0x0, 0x3c0, 0x0, 0x0, 0x780, 0x0, 0x3c0, 0xf00, 0x0, 0x0, 0x1e00, 0x0, 0xcc0, 0x3c00,
     0x440, 0x0, 0x7800, 0xf00, 0x3300, 0xf000, 0xf00, 0x0, 0x1ef00, 0x0, 0xcc00, 0x3c000,
     0x4380, 0x0, 0x78f00, 0xff00, 0x32680, 0xf0000, 0xf000, 0x3300, 0x1eff00, 0x0,
     0xcb800, 0x3c0000, 0x40b00, 0xf000, 0x78ff00, 0xff000, 0x338700, 0xf00000, 0xfc300,
     0xf000, 0x1efbb00, 0x0, 0xcc0000, 0x3c0f000, 0x438000, 0x0, 0x78f0000, 0xff0000,
     0x3269e00, 0xf000000, 0xf0f000, 0x333c00, 0x1eff8800, 0x0, 0xcb88800, 0x3c00f000,
     0x40a4a00])
     [40..<60] (0xdbe88398, 0x745be183, 0xdb3dba40, 0x3d669479, 0x75a79a25) =
     (0xcb110f8f, 0xdc95d643, 0xe58779a5, 0x240e19fe, 0x931b737)"
  by (simp add: sha1_round_def rotl32_def upt_rec Let_def)

lemma accept_rounds_2_4:
  "fold (sha1_round
     [0x0, 0x0, 0x0, 0x0, 0x0, 0x0, 0x0, 0x0, 0x0, 0x0, 0x0, 0x0, 0x0, 0x0, 0x0, 0x1e0, 0x0,
     0x0, 0x3c0, 0x0, 0x0, 0x780, 0x0, 0x3c0, 0xf00, 0x0, 0x0, 0x1e00, 0x0, 0xcc0, 0x3c00,
     0x440, 0x0, 0x7800, 0xf00, 0x3300, 0xf000, 0xf00, 0x0, 0x1ef00, 0x0, 0xcc00, 0x3c000,
     0x4380, 0x0, 0x78f00, 0xff00, 0x32680, 0xf0000, 0xf000, 0x3300, 0x1eff00, 0x0,
     0xcb800, 0x3c0000, 0x40b00, 0xf000, 0x78ff00, 0xff000, 0x338700, 0xf00000, 0xfc300,
     0xf000, 0x1efbb00, 0x0, 0xcc0000, 0x3c0f000, 0x438000, 0x0, 0x78f0000, 0xff0000,
     0x3269e00, 0xf000000, 0xf0f000, 0x333c00, 0x1eff8800, 0x0, 0xcb88800, 0x3c00f000,
     0x40a4a00])
     [60..<80] (0xcb110f8f, 0xdc95d643, 0xe58779a5, 0x240e19fe, 0x931b737) =
     (0x2feb39ea, 0xc702ed16, 0x179d030c, 0xf160403f, 0x6dbbe00b)"
  by (simp add: sha1_round_def rotl32_def upt_rec Let_def)

lemma accept_block_2:
  "sha1_block (0xed3e7189, 0x8409a86f, 0xc63669a, 0xf383a8dc, 0xf41e395e)
     [0, 0, 0, 0, 0, 0, 0, 0, 0, 0, 0, 0, 0, 0, 0, 0, 0, 0, 0, 0, 0, 0, 0, 0, 0, 0, 0, 0, 0,
     0, 0, 0, 0, 0, 0, 0, 0, 0, 0, 0, 0, 0, 0, 0, 0, 0, 0, 0, 0, 0, 0, 0, 0, 0, 0, 0, 0, 0,
     0, 0, 0, 0, 1, 224] =
     (0x1d29ab73, 0x4b0c9585, 0x240069a6, 0xe4e3e91b, 0x61da1969)"
proof -
  have "[0..<80] = [0..<20] @ [20..<40] @ [40..<60] @ [60..<80]"
    by (simp add: upt_rec)
  then show ?thesis
    by (simp only: sha1_block_def accept_schedule_2 fold_append comp_apply
          accept_rounds_2_1 accept_rounds_2_2 accept_rounds_2_3 accept_rounds_2_4)
       simp
qed

lemma accept_digest:
  "sha1 (map of_char (''x3JJHMbDL1EzLkh9GBhXDw=='' @ websocket_guid)) =
     [29, 41, 171, 115, 75, 12, 149, 133, 36, 0, 105, 166, 228, 227, 233, 27, 97, 218, 25,
     105]"
proof -
  let ?P = "[120, 51, 74, 74, 72, 77, 98, 68, 76, 49, 69, 122, 76, 107, 104, 57, 71, 66, 104, 88,
     68, 119, 61, 61, 50, 53, 56, 69, 65, 70, 65, 53, 45, 69, 57, 49, 52, 45, 52, 55, 68,
     65, 45, 57, 53, 67, 65, 45, 67, 53, 65, 66, 48, 68, 67, 56, 53, 66, 49, 49, 128, 0, 0,
     0, 0, 0, 0, 0, 0, 0, 0, 0, 0, 0, 0, 0, 0, 0, 0, 0, 0, 0, 0, 0, 0, 0, 0, 0, 0, 0, 0, 0,
     0, 0, 0, 0, 0, 0, 0, 0, 0, 0, 0, 0, 0, 0, 0, 0, 0, 0, 0, 0, 0, 0, 0, 0, 0, 0, 0, 0, 0,
     0, 0, 0, 0, 0, 1, 224] :: byte list"
  have b1: "take 64 (drop (64 * 0) ?P) =
     [120, 51, 74, 74, 72, 77, 98, 68, 76, 49, 69, 122, 76, 107, 104, 57, 71, 66, 104, 88,
     68, 119, 61, 61, 50, 53, 56, 69, 65, 70, 65, 53, 45, 69, 57, 49, 52, 45, 52, 55, 68,
     65, 45, 57, 53, 67, 65, 45, 67, 53, 65, 66, 48, 68, 67, 56, 53, 66, 49, 49, 128, 0, 0,
     0]"
    by simp
  have b2: "take 64 (drop (64 * 1) ?P) =
     [0, 0, 0, 0, 0, 0, 0, 0, 0, 0, 0, 0, 0, 0, 0, 0, 0, 0, 0, 0, 0, 0, 0, 0, 0, 0, 0, 0, 0,
     0, 0, 0, 0, 0, 0, 0, 0, 0, 0, 0, 0, 0, 0, 0, 0, 0, 0, 0, 0, 0, 0, 0, 0, 0, 0, 0, 0, 0,
     0, 0, 0, 0, 1, 224]"
    by simp
  have n: "[0..<length ?P div 64] = [0, 1]"
    by (simp add: upt_rec)
  have "fold (sha1_blocks ?P) [0..<length ?P div 64]
          (0x67452301, 0xefcdab89, 0x98badcfe, 0x10325476, 0xc3d2e1f0) =
        (0x1d29ab73, 0x4b0c9585, 0x240069a6, 0xe4e3e91b, 0x61da1969)"
    by (simp only: n fold_Cons fold_Nil id_apply comp_apply sha1_blocks_def b1 b2
          accept_block_1 accept_block_2)
  then show ?thesis
    by (simp only: sha1_def accept_padded) (simp add: upt_rec)
qed

lemma accept_token:
  "websocket_accept ''x3JJHMbDL1EzLkh9GBhXDw=='' = ''HSmrc0sMlYUkAGmm5OPpG2HaGWk=''"
  by (simp only: websocket_accept_def accept_digest) (simp add: base64_alphabet_def)

text \<open>
  Claim C1 as stated fails. This upgrade request carries the key
  \<open>x3JJHMbDL1EzLkh9GBhXDw==\<close>. The handshake succeeds and a client is registered; the
  response sent is the fixed one, and the token the handshake algorithm computes from
  this key, \<open>HSmrc0sMlYUkAGmm5OPpG2HaGWk=\<close>, occurs nowhere in it.
\<close>

theorem handshake_token_not_computed:
  "sc_webrtc_server_handle_http ''<html></html>''
     \<lparr>server_socket = Socket 3, stopped = False,
        mutex = \<lparr>recursive = False, depth = 0\<rparr>,
        clients = replicate 10
          \<lparr>id_c = 0, peer_connection = None, data_channel = None, connected = False,
           socket = SC_SOCKET_NONE\<rparr>,
        client_count = 0, on_client_connected = True, on_client_disconnected = True\<rparr>
     (Socket 20) 85
     (''GET /ws HTTP/1.1'' @ CRLF @ ''Upgrade: websocket'' @ CRLF @
      ''Sec-WebSocket-Key: x3JJHMbDL1EzLkh9GBhXDw=='' @ CRLF @ CRLF)
     129
   = Some (True,
       \<lparr>server_socket = Socket 3, stopped = False,
        mutex = \<lparr>recursive = False, depth = 0\<rparr>,
        clients = (replicate 10
          \<lparr>id_c = 0, peer_connection = None, data_channel = None, connected = False,
           socket = SC_SOCKET_NONE\<rparr>)
          [0 := \<lparr>id_c = 0, peer_connection = None, data_channel = None, connected = True,
                 socket = Socket 20\<rparr>],
        client_count = 1, on_client_connected = True, on_client_disconnected = True\<rparr>,
       [Net_Send (Socket 20) websocket_response, On_Client_Connected 0]) \<and>
   websocket_accept ''x3JJHMbDL1EzLkh9GBhXDw=='' = ''HSmrc0sMlYUkAGmm5OPpG2HaGWk='' \<and>
   strstr websocket_response (websocket_accept ''x3JJHMbDL1EzLkh9GBhXDw=='') = None"
proof -
  have "strstr websocket_response ''HSmrc0sMlYUkAGmm5OPpG2HaGWk='' = None"
    by (simp add: websocket_response_def CRLF_def)
  then show ?thesis
    by (simp add: accept_token handle_http_eq SC_WEBRTC_MAX_CLIENTS_def c_str_def CRLF_def)
qed

section \<open>Stopping the server\<close>

declare stop_clients.simps [simp del]

lemma stop_clients_unfold:
  "stop_clients server i =
     (if i < client_count server then
        if connected (clients server ! nat i) then
          case sc_webrtc_server_remove_client server i of
            None \<Rightarrow> None
          | Some (server', evs) \<Rightarrow>
              (case stop_clients server' (i + 1) of
                 None \<Rightarrow> None
               | Some (server'', evs') \<Rightarrow> Some (server'', evs @ evs'))
        else stop_clients server (i + 1)
      else Some (server, []))"
  by (rule stop_clients.simps)

lemma remove_client_held_plain:
  assumes "\<not> recursive (mutex server)" "depth (mutex server) \<noteq> 0"
  shows "sc_webrtc_server_remove_client server client_id = None"
  using assms by (simp add: sc_webrtc_server_remove_client_def lock_held_plain)

lemma stop_clients_stuck:
  assumes "\<not> recursive (mutex server)" "depth (mutex server) \<noteq> 0"
      and "0 \<le> i" "i \<le> j" "j < client_count server" "connected (clients server ! nat j)"
  shows "stop_clients server i = None"
  using assms
proof (induction server i rule: stop_clients.induct)
  case (1 server i)
  have lt: "i < client_count server" using "1.prems" by simp
  show ?case
  proof (cases "connected (clients server ! nat i)")
    case True
    then show ?thesis
      using lt remove_client_held_plain[OF "1.prems"(1,2)]
      by (subst stop_clients_unfold) simp
  next
    case False
    then have "i \<noteq> j" using "1.prems"(6) by auto
    then have "i + 1 \<le> j" using "1.prems"(4) by simp
    then have "stop_clients server (i + 1) = None"
      using "1.IH"(2)[OF lt False "1.prems"(1,2)] "1.prems" by simp
    then show ?thesis using lt False by (subst stop_clients_unfold) simp
  qed
qed

lemma stop_stuck:
  assumes "\<not> recursive (mutex server)" "depth (mutex server) = 0"
      and "0 \<le> j" "j < client_count server" "connected (clients server ! nat j)"
  shows "sc_webrtc_server_stop server = None"
proof -
  let ?held = "server\<lparr>stopped := True, mutex := (mutex server)\<lparr>depth := 1\<rparr>\<rparr>"
  have l: "sc_mutex_lock (mutex server) = Some ((mutex server)\<lparr>depth := 1\<rparr>)"
    using assms(2) by (simp add: sc_mutex_lock_def)
  have "stop_clients ?held 0 = None"
    using assms by (intro stop_clients_stuck[where j = j]) simp_all
  then show ?thesis
    by (simp add: sc_webrtc_server_stop_def Let_def l)
qed

lemma stop_clients_recursive:
  assumes "recursive (mutex server)" "0 \<le> i"
      and "client_count server \<le> int (length (clients server))"
  shows "\<exists>server' evs.
           stop_clients server i = Some (server', evs) \<and>
           server' = server\<lparr>clients := clients server'\<rparr> \<and>
           length (clients server') = length (clients server) \<and>
           (\<forall>j. i \<le> j \<and> j < client_count server \<longrightarrow> \<not> connected (clients server' ! nat j)) \<and>
           (\<forall>k. int k < i \<longrightarrow> clients server' ! k = clients server ! k) \<and>
           (\<forall>j. i \<le> j \<and> j < client_count server \<and> connected (clients server ! nat j) \<longrightarrow>
                Net_Close (socket (clients server ! nat j)) \<in> set evs \<and>
                (on_client_disconnected server \<longrightarrow> On_Client_Disconnected j \<in> set evs))"
  using assms
proof (induction server i rule: stop_clients.induct)
  case (1 server i)
  show ?case
  proof (cases "i < client_count server")
    case False
    then have "stop_clients server i = Some (server, [])"
      by (subst stop_clients_unfold) simp
    then show ?thesis using False by auto
  next
    case lt: True
    then have ni: "nat i < length (clients server)" using "1.prems"(2,3) by linarith
    show ?thesis
    proof (cases "connected (clients server ! nat i)")
      case False
      obtain server' evs where
        r: "stop_clients server (i + 1) = Some (server', evs)"
        and f: "server' = server\<lparr>clients := clients server'\<rparr>"
        and l: "length (clients server') = length (clients server)"
        and d: "\<forall>j. i + 1 \<le> j \<and> j < client_count server \<longrightarrow> \<not> connected (clients server' ! nat j)"
        and u: "\<forall>k. int k < i + 1 \<longrightarrow> clients server' ! k = clients server ! k"
        and e: "\<forall>j. i + 1 \<le> j \<and> j < client_count server \<and> connected (clients server ! nat j) \<longrightarrow>
                Net_Close (socket (clients server ! nat j)) \<in> set evs \<and>
                (on_client_disconnected server \<longrightarrow> On_Client_Disconnected j \<in> set evs)"
        using "1.IH"(2)[OF lt False "1.prems"(1) _ "1.prems"(3)] "1.prems"(2) by auto
      have s: "stop_clients server i = Some (server', evs)"
        using lt False r by (subst stop_clients_unfold) simp
      have here: "clients server' ! nat i = clients server ! nat i"
        using u "1.prems"(2) by simp
      have d': "\<not> connected (clients server' ! nat j)" if "i \<le> j" "j < client_count server" for j
      proof (cases "j = i")
        case True
        then show ?thesis using here False by simp
      next
        case False
        then show ?thesis using d that by simp
      qed
      have u': "clients server' ! k = clients server ! k" if "int k < i" for k
        using u that by simp
      have e': "Net_Close (socket (clients server ! nat j)) \<in> set evs \<and>
                (on_client_disconnected server \<longrightarrow> On_Client_Disconnected j \<in> set evs)"
        if "i \<le> j" "j < client_count server" "connected (clients server ! nat j)" for j
      proof -
        have "j \<noteq> i" using that(3) False by auto
        then show ?thesis using e that by simp
      qed
      show ?thesis using s f l d' u' e' by blast
    next
      case True
      let ?c = "clients server ! nat i"
      let ?server1 = "server\<lparr>clients := (clients server)[nat i :=
                        ?c\<lparr>connected := False, peer_connection := None\<rparr>]\<rparr>"
      let ?evs1 = "[Net_Close (socket ?c)]
                 @ (case peer_connection ?c of
                      Some pc \<Rightarrow> [Rtc_Delete_Peer_Connection pc] | None \<Rightarrow> [])
                 @ (if on_client_disconnected server
                    then [On_Client_Disconnected i] else [])"
      have rm: "sc_webrtc_server_remove_client server i = Some (?server1, ?evs1)"
        using "1.prems"(1,2) lt True by (simp add: remove_client_eq)
      have p1: "recursive (mutex ?server1)" using "1.prems"(1) by simp
      have p3: "client_count ?server1 \<le> int (length (clients ?server1))"
        using "1.prems"(3) by simp
      obtain server' evs where
        r: "stop_clients ?server1 (i + 1) = Some (server', evs)"
        and f: "server' = ?server1\<lparr>clients := clients server'\<rparr>"
        and l: "length (clients server') = length (clients ?server1)"
        and d: "\<forall>j. i + 1 \<le> j \<and> j < client_count ?server1 \<longrightarrow> \<not> connected (clients server' ! nat j)"
        and u: "\<forall>k. int k < i + 1 \<longrightarrow> clients server' ! k = clients ?server1 ! k"
        and e: "\<forall>j. i + 1 \<le> j \<and> j < client_count ?server1 \<and> connected (clients ?server1 ! nat j) \<longrightarrow>
                Net_Close (socket (clients ?server1 ! nat j)) \<in> set evs \<and>
                (on_client_disconnected ?server1 \<longrightarrow> On_Client_Disconnected j \<in> set evs)"
        using "1.IH"(1)[OF lt True rm refl p1 _ p3] "1.prems"(2) by auto
      have s: "stop_clients server i = Some (server', ?evs1 @ evs)"
        using lt True rm r by (subst stop_clients_unfold) simp
      have f': "server' = server\<lparr>clients := clients server'\<rparr>"
        using f by (metis sc_webrtc_server.update_convs(4) sc_webrtc_server.surjective)
      have l': "length (clients server') = length (clients server)" using l by simp
      have here: "clients server' ! nat i = ?c\<lparr>connected := False, peer_connection := None\<rparr>"
        using u ni "1.prems"(2) by simp
      have d': "\<not> connected (clients server' ! nat j)" if "i \<le> j" "j < client_count server" for j
      proof (cases "j = i")
        case True
        then show ?thesis using here by simp
      next
        case False
        then show ?thesis using d that by simp
      qed
      have u': "clients server' ! k = clients server ! k" if "int k < i" for k
      proof -
        have "k \<noteq> nat i" using that by linarith
        then show ?thesis using u that by simp
      qed
      have e': "Net_Close (socket (clients server ! nat j)) \<in> set (?evs1 @ evs) \<and>
                (on_client_disconnected server \<longrightarrow> On_Client_Disconnected j \<in> set (?evs1 @ evs))"
        if "i \<le> j" "j < client_count server" "connected (clients server ! nat j)" for j
      proof (cases "j = i")
        case True
        then show ?thesis by simp
      next
        case False
        then have "nat j \<noteq> nat i" using that(1) "1.prems"(2) by linarith
        then have eq: "clients ?server1 ! nat j = clients server ! nat j" by simp
        have "i + 1 \<le> j \<and> j < client_count ?server1 \<and> connected (clients ?server1 ! nat j)"
          using that False eq by simp
        then have "Net_Close (socket (clients ?server1 ! nat j)) \<in> set evs \<and>
                (on_client_disconnected ?server1 \<longrightarrow> On_Client_Disconnected j \<in> set evs)"
          by (rule e[rule_format])
        then show ?thesis using eq by simp
      qed
      show ?thesis using s f' l' d' u' e' by blast
    qed
  qed
qed

lemma stop_completes_recursive:
  assumes "recursive (mutex server)"
      and "client_count server \<le> int (length (clients server))"
  shows "\<exists>server' evs.
           sc_webrtc_server_stop server = Some (server', evs) \<and>
           stopped server' \<and> server_socket server' = SC_SOCKET_NONE \<and>
           mutex server' = mutex server \<and>
           (\<forall>j. 0 \<le> j \<and> j < client_count server \<longrightarrow> \<not> connected (clients server' ! nat j)) \<and>
           (\<forall>j. 0 \<le> j \<and> j < client_count server \<and> connected (clients server ! nat j) \<longrightarrow>
                Net_Close (socket (clients server ! nat j)) \<in> set evs \<and>
                (on_client_disconnected server \<longrightarrow> On_Client_Disconnected j \<in> set evs)) \<and>
           (server_socket server \<noteq> SC_SOCKET_NONE \<longrightarrow>
              evs \<noteq> [] \<and> last evs = Net_Close (server_socket server))"
proof -
  let ?m = "(mutex server)\<lparr>depth := Suc (depth (mutex server))\<rparr>"
  let ?held = "server\<lparr>stopped := True, mutex := ?m\<rparr>"
  have lk: "sc_mutex_lock (mutex server) = Some ?m"
    using assms(1) by (simp add: sc_mutex_lock_def)
  have un: "sc_mutex_unlock ?m = mutex server"
    by (simp add: sc_mutex_unlock_def)
  obtain server1 evs1 where
    r: "stop_clients ?held 0 = Some (server1, evs1)"
    and f: "server1 = ?held\<lparr>clients := clients server1\<rparr>"
    and d: "\<forall>j. 0 \<le> j \<and> j < client_count ?held \<longrightarrow> \<not> connected (clients server1 ! nat j)"
    and e: "\<forall>j. 0 \<le> j \<and> j < client_count ?held \<and> connected (clients ?held ! nat j) \<longrightarrow>
                Net_Close (socket (clients ?held ! nat j)) \<in> set evs1 \<and>
                (on_client_disconnected ?held \<longrightarrow> On_Client_Disconnected j \<in> set evs1)"
    using stop_clients_recursive[of ?held 0] assms by auto
  have m1: "mutex server1 = ?m" and s1: "stopped server1"
    and k1: "server_socket server1 = server_socket server"
    by (subst f, simp)+
  let ?server2 = "server1\<lparr>mutex := mutex server\<rparr>"
  have stop: "sc_webrtc_server_stop server =
      (if server_socket server \<noteq> SC_SOCKET_NONE
       then Some (?server2\<lparr>server_socket := SC_SOCKET_NONE\<rparr>,
                  evs1 @ [Net_Close (server_socket server)])
       else Some (?server2, evs1))"
    by (simp add: sc_webrtc_server_stop_def Let_def lk r m1 un k1)
  show ?thesis
  proof (cases "server_socket server \<noteq> SC_SOCKET_NONE")
    case True
    then show ?thesis using stop s1 d e by auto
  next
    case False
    then show ?thesis using stop s1 k1 d e by auto
  qed
qed

lemma stop_clients_none_alive:
  assumes "0 \<le> i"
      and "\<forall>j. i \<le> j \<and> j < client_count server \<longrightarrow> \<not> connected (clients server ! nat j)"
  shows "stop_clients server i = Some (server, [])"
  using assms
proof (induction server i rule: stop_clients.induct)
  case (1 server i)
  show ?case
  proof (cases "i < client_count server")
    case False
    then show ?thesis by (subst stop_clients_unfold) simp
  next
    case True
    then have dead: "\<not> connected (clients server ! nat i)" using "1.prems"(2) by simp
    have "stop_clients server (i + 1) = Some (server, [])"
      using "1.IH"(2)[OF True dead] "1.prems" by simp
    then show ?thesis using True dead by (subst stop_clients_unfold) simp
  qed
qed

text \<open>
  Claim C4. The claim is right where the lock may be taken again by the thread that
  holds it (\<open>stop_completes_recursive\<close>) and where no client is alive. With a lock
  that may not, and one alive client, it fails on the source: \<open>stop\<close> takes the lock,
  finds client 0 connected and calls \<open>remove_client\<close>, whose first act is to take the
  same lock; the call never returns, no client is disconnected and the listening
  socket is never closed.
\<close>

theorem stop_waits_for_its_own_lock:
  "sc_webrtc_server_stop
     \<lparr>server_socket = Socket 3, stopped = False,
      mutex = \<lparr>recursive = False, depth = 0\<rparr>,
      clients = replicate 10
        \<lparr>id_c = 0, peer_connection = None, data_channel = None, connected = True,
         socket = Socket 9\<rparr>,
      client_count = 1, on_client_connected = True, on_client_disconnected = True\<rparr>
   = None"
  by (rule stop_stuck[where j = 0]) simp_all

end
